theory Spec2Isabelle
  imports Complex_Main
begin

section \<open>Numbers and vectors\<close>

text \<open>
  \<open>float_t\<close> values are modelled as real numbers.  A floating-point division whose
  denominator is zero leaves the real numbers (the machine result is an infinity or a NaN):
  it is a branch of the model of its own, \<open>Inl DivisionByZero\<close>.  Reading a connection
  through a pointer that the connection container no longer owns is \<open>Inl DanglingConnection\<close>.
  Reaching the end of a function that is declared to return a value without a \<open>return\<close>
  statement is undefined behaviour: \<open>Inl MissingReturn\<close>.
\<close>

datatype fault = DivisionByZero | DanglingConnection | MissingReturn

definition fdiv :: "real \<Rightarrow> real \<Rightarrow> fault + real" where
  "fdiv a b = (if b = 0 then Inl DivisionByZero else Inr (a / b))"

type_synonym vec = "real \<times> real \<times> real"

fun vminus :: "vec \<Rightarrow> vec \<Rightarrow> vec" where
  "vminus (x1, y1, z1) (x2, y2, z2) = (x1 - x2, y1 - y2, z1 - z2)"

fun vplus :: "vec \<Rightarrow> vec \<Rightarrow> vec" where
  "vplus (x1, y1, z1) (x2, y2, z2) = (x1 + x2, y1 + y2, z1 + z2)"

fun vneg :: "vec \<Rightarrow> vec" where
  "vneg (x, y, z) = (- x, - y, - z)"

fun vscale :: "real \<Rightarrow> vec \<Rightarrow> vec" where
  "vscale a (x, y, z) = (a * x, a * y, a * z)"

fun dot :: "vec \<Rightarrow> vec \<Rightarrow> real" where
  "dot (x1, y1, z1) (x2, y2, z2) = x1 * x2 + y1 * y2 + z1 * z2"

fun cross :: "vec \<Rightarrow> vec \<Rightarrow> vec" where
  "cross (x1, y1, z1) (x2, y2, z2) = (y1 * z2 - z1 * y2, z1 * x2 - x1 * z2, x1 * y2 - y1 * x2)"

definition sqlength :: "vec \<Rightarrow> real" where
  "sqlength v = dot v v"

fun vdiv :: "vec \<Rightarrow> real \<Rightarrow> fault + vec" where
  "vdiv (x, y, z) a = (if a = 0 then Inl DivisionByZero else Inr (x / a, y / a, z / a))"

type_synonym cell = nat
type_synonym connptr = nat
type_synonym model = nat
type_synonym mcptr = nat

text \<open>
  Modelled from the spec: \<open>mix\<close> of tools.h, the interpolation "between a max adhesion and a
  min adhesion multiple": the first argument at weight 0, the second at weight 1.
\<close>

definition mix :: "real \<Rightarrow> real \<Rightarrow> real \<Rightarrow> real" where
  "mix a b w = a * (1 - w) + b * w"

text \<open>
  Modelled from the spec: \<open>roundN\<close> of tools.h, "rounded to a fixed decimal precision";
  the number \<open>N\<close> of decimals is a parameter.  It is used where a concrete rounding is needed.
\<close>

definition roundDecimal :: "nat \<Rightarrow> real \<Rightarrow> real" where
  "roundDecimal N x = of_int (round (x * 10 ^ N)) / 10 ^ N"

text \<open>
  Modelled from the spec: \<open>make_ordered_cell_pair\<close> of tools.h, the "unordered pair" of two
  cells: the two pointers in increasing order.
\<close>

definition make_ordered_cell_pair :: "cell \<Rightarrow> cell \<Rightarrow> cell \<times> cell" where
  "make_ordered_cell_pair a b = (if a \<le> b then (a, b) else (b, a))"

text \<open>A loop whose body may end in a fault: the first fault ends the loop.\<close>

fun foldE :: "('a \<Rightarrow> 's \<Rightarrow> fault + 's) \<Rightarrow> 'a list \<Rightarrow> 's \<Rightarrow> fault + 's" where
  "foldE f [] s = Inr s"
| "foldE f (x # xs) s = (case f x s of Inl e \<Rightarrow> Inl e | Inr s' \<Rightarrow> foldE f xs s')"

section \<open>Cells, membranes, connections\<close>

text \<open>
  The fields of \<open>SphereMembrane\<close>.  \<open>cellConnections\<close> is \<open>cccm.cellConnections\<close>, the pointers
  to the cell-cell connections of the cell; \<open>modelConnections\<close> holds the pointers to its
  cell-model connections.
\<close>

record membrane =
  cellConnections :: "connptr list"
  modelConnections :: "mcptr list"
  baseRadius :: real
  radius :: real
  correctedRadius :: real
  stiffness :: real
  dampRatio :: real
  angularStiffness :: real
  maxTeta :: real
  pressure :: real
  volumeConservation :: bool

text \<open>What the membrane code reads and writes of a \<open>Cell\<close>.\<close>

record cellrec =
  position :: vec
  prevposition :: vec
  mass :: real
  force :: vec
  torque :: vec
  totalForce :: real
  connectedCells :: "cell list"
  membrane :: membrane

record spring =
  sp_k :: real
  sp_c :: real
  sp_restLength :: real
  sp_length :: real
  sp_direction :: vec

record joint =
  jt_k :: real
  jt_c :: real
  jt_maxTeta :: real
  jt_currentKCoef :: real

text \<open>
  A cell-cell connection: its two nodes, the spring \<open>sc\<close> with the cached length and
  direction, and the flexion and torsion joints of the two ends.
\<close>

record connection =
  node0 :: cell
  node1 :: cell
  sc :: spring
  flex :: "joint \<times> joint"
  torsion :: "joint \<times> joint"

text \<open>
  A cell-model connection: the anchor (a point in space and its spring) and the bounce
  (a point on a face of a model and its spring).  \<open>mc_ptr\<close> is the address of the object,
  by which the membrane refers to it.
\<close>

record modelconnection =
  mc_ptr :: mcptr
  dirty :: bool
  anchor_position :: vec
  anchor_sc :: spring
  anchor_tjEnabled :: bool
  bounce_position :: vec
  bounce_face :: nat
  bounce_sc :: spring

text \<open>
  The state the static functions of \<open>SphereMembrane\<close> work on: the cells behind the
  \<open>Cell\<close> pointers, the container of cell-cell connections (the addresses it owns, in order,
  and the object at each address), and the container of cell-model connections, a map from
  models to maps from cells to vectors, kept as association lists in iteration order.
\<close>

record world =
  cells :: "cell \<Rightarrow> cellrec"
  container :: "connptr list"
  conns :: "connptr \<Rightarrow> connection"
  cellModelConnections :: "(model \<times> (cell \<times> modelconnection list) list) list"

text \<open>
  tools.h, connection.h, cellcellconnectionmanager.hpp, modelconnection.hpp, the \<open>Cell\<close>
  class and the space partitions are not part of the sources at hand.  What the membrane code
  takes from them is a parameter of the functions below, collected in one record:
  the rounding \<open>roundN\<close>, the tolerance test \<open>fuzzyEqual\<close>, the three adhesion constants,
  \<open>dampingFromRatio\<close>, \<open>Vec::normalized\<close>, \<open>Connection::updateLengthDirection\<close> as the
  function \<open>lengthDirection\<close> from the positions of the two nodes to the cached length and
  direction, the adhesion accessors of \<open>Cell\<close>, \<open>Connection::computeForces\<close> as the force
  and torque it adds to each of the two nodes, the grid of cells (\<open>getThreadSafeGrid\<close>
  after the cells were inserted), the grid of model faces (\<open>retrieve\<close>), the three vertices
  of a face and \<open>projectionIntriangle\<close>.  The cube root \<open>cbrt\<close> of the C library is a
  parameter as well: in machine arithmetic it does not undo a cube exactly.  The theorems
  hold for every value of these parameters unless a hypothesis says otherwise.
\<close>

record tools =
  roundN :: "real \<Rightarrow> real"
  fuzzyEqual :: "real \<Rightarrow> real \<Rightarrow> bool"
  ADH_THRESHOLD :: real
  MAX_CELL_ADH_LENGTH :: real
  MIN_CELL_ADH_LENGTH :: real
  dampingFromRatio :: "real \<Rightarrow> real \<Rightarrow> real \<Rightarrow> real"
  normalized :: "vec \<Rightarrow> vec"
  lengthDirection :: "vec \<Rightarrow> vec \<Rightarrow> real \<times> vec"
  getAdhesionWith :: "cell \<Rightarrow> cell \<Rightarrow> real"
  getAdhesionWithModel :: "cell \<Rightarrow> model \<Rightarrow> real"
  computeForces :: "real \<Rightarrow> connection \<Rightarrow> cellrec \<Rightarrow> cellrec \<Rightarrow> (vec \<times> vec) \<times> (vec \<times> vec)"
  getThreadSafeGrid :: "cell list \<Rightarrow> cell list list list"
  retrieve :: "vec \<Rightarrow> real \<Rightarrow> (model \<times> nat) list"
  faceVertices :: "model \<Rightarrow> nat \<Rightarrow> vec \<times> vec \<times> vec"
  projectionIntriangle :: "vec \<Rightarrow> vec \<Rightarrow> vec \<Rightarrow> vec \<Rightarrow> bool \<times> vec"
  cbrt :: "real \<Rightarrow> real"

text \<open>\<open>roundN\<close> on a \<open>Vec\<close> rounds each coordinate.\<close>

fun roundNv :: "tools \<Rightarrow> vec \<Rightarrow> vec" where
  "roundNv T (x, y, z) = (roundN T x, roundN T y, roundN T z)"

definition mem :: "world \<Rightarrow> cell \<Rightarrow> membrane" where
  "mem w c = membrane (cells w c)"

definition updMembrane :: "cell \<Rightarrow> (membrane \<Rightarrow> membrane) \<Rightarrow> world \<Rightarrow> world" where
  "updMembrane c f w =
     w\<lparr>cells := (cells w)(c := (cells w c)\<lparr>membrane := f (membrane (cells w c))\<rparr>)\<rparr>"

definition updCell :: "cell \<Rightarrow> (cellrec \<Rightarrow> cellrec) \<Rightarrow> world \<Rightarrow> world" where
  "updCell c f w = w\<lparr>cells := (cells w)(c := f (cells w c))\<rparr>"

definition updConn :: "connptr \<Rightarrow> (connection \<Rightarrow> connection) \<Rightarrow> world \<Rightarrow> world" where
  "updConn p f w = w\<lparr>conns := (conns w)(p := f (conns w p))\<rparr>"

section \<open>Rest length of a connection\<close>

definition getConnectionLength :: "tools \<Rightarrow> real \<Rightarrow> real \<Rightarrow> real" where
  "getConnectionLength T l adh =
     (if adh > ADH_THRESHOLD T
      then mix (MAX_CELL_ADH_LENGTH T * l) (MIN_CELL_ADH_LENGTH T * l) adh
      else l)"

text \<open>The overload on two cells.\<close>

definition getConnectionLengthCells :: "tools \<Rightarrow> world \<Rightarrow> cell \<Rightarrow> cell \<Rightarrow> real" where
  "getConnectionLengthCells T w c0 c1 =
     getConnectionLength T (correctedRadius (mem w c0) + correctedRadius (mem w c1))
       (min (getAdhesionWith T c0 c1) (getAdhesionWith T c1 c0))"

section \<open>Nearest connected cells along a direction\<close>

text \<open>\<open>Connection::updateLengthDirection\<close> on the connection at address \<open>p\<close>.\<close>

definition updateLengthDirection :: "tools \<Rightarrow> connptr \<Rightarrow> world \<Rightarrow> world" where
  "updateLengthDirection T p w =
     (let con = conns w p;
          ld = lengthDirection T (position (cells w (node0 con))) (position (cells w (node1 con)))
      in updConn p (\<lambda>c. c\<lparr>sc := (sc c)\<lparr>sp_length := fst ld, sp_direction := snd ld\<rparr>\<rparr>) w)"

text \<open>
  The body of the loop of \<open>getConnectedCellAndMembraneDistance\<close> for the connection
  pointer \<open>cc\<close>; the state of the loop is the world (the connection is updated), the
  closest cells and the closest distance.
\<close>

definition gccStep ::
  "tools \<Rightarrow> cell \<Rightarrow> vec \<Rightarrow> connptr \<Rightarrow> world \<times> cell list \<times> real
     \<Rightarrow> fault + (world \<times> cell list \<times> real)" where
  "gccStep T me d cc s =
     (case s of (w, closestCells, closestDist) \<Rightarrow>
        if cc \<notin> set (container w) then Inl DanglingConnection
        else
          let w1 = updateLengthDirection T cc w;
              con = conns w1 cc;
              otherCell = (if me = node0 con then node1 con else node0 con);
              normal = (if me = node0 con then vneg (sp_direction (sc con))
                        else sp_direction (sc con));
              dt = dot normal d
          in if dt < 0 then
               (case fdiv (sp_length (sc con) * radius (mem w1 me))
                          (radius (mem w1 me) + radius (mem w1 otherCell)) of
                  Inl e \<Rightarrow> Inl e
                | Inr midpoint \<Rightarrow>
                    let l = - midpoint / dt
                    in if fuzzyEqual T l closestDist
                       then Inr (w1, closestCells @ [otherCell], closestDist)
                       else if l < closestDist then Inr (w1, [otherCell], l)
                       else Inr (w1, closestCells, closestDist))
             else Inr (w1, closestCells, closestDist))"

definition getConnectedCellAndMembraneDistance ::
  "tools \<Rightarrow> world \<Rightarrow> cell \<Rightarrow> vec \<Rightarrow> fault + (world \<times> cell list \<times> real)" where
  "getConnectedCellAndMembraneDistance T w me d =
     foldE (gccStep T me d) (cellConnections (mem w me)) (w, [], correctedRadius (mem w me))"

section \<open>Volume and pressure\<close>

definition getVolume :: "membrane \<Rightarrow> real" where
  "getVolume m = (4 / 3) * pi * radius m * radius m * radius m"

definition getMomentOfInertia :: "cellrec \<Rightarrow> real" where
  "getMomentOfInertia c = 4 * mass c * radius (membrane c) * radius (membrane c)"

definition computePressure :: "tools \<Rightarrow> cell \<Rightarrow> world \<Rightarrow> fault + world" where
  "computePressure T c w =
     (let surface = 4 * pi * radius (mem w c) * radius (mem w c)
      in case fdiv (totalForce (cells w c)) surface of
           Inl e \<Rightarrow> Inl e
         | Inr q \<Rightarrow> Inr (updMembrane c (\<lambda>m. m\<lparr>pressure := roundN T q\<rparr>) w))"

text \<open>
  The body of the loop of \<open>compensateVolumeLoss\<close>: the length of the connection is read as
  it is cached.
\<close>

definition volumeLossStep :: "world \<Rightarrow> cell \<Rightarrow> connptr \<Rightarrow> real \<Rightarrow> fault + real" where
  "volumeLossStep w me cc volumeLoss =
     (if cc \<notin> set (container w) then Inl DanglingConnection
      else
        let con = conns w cc;
            other = (if me = node0 con then node1 con else node0 con);
            r = radius (mem w me)
        in case fdiv (sp_length (sc con) * r) (r + radius (mem w other)) of
             Inl e \<Rightarrow> Inl e
           | Inr midpoint \<Rightarrow>
               let h = r - midpoint
               in Inr (volumeLoss + (pi * h / 6) * (3 * (r * r - midpoint * midpoint) + h * h)))"

text \<open>
  The statements of \<open>compensateVolumeLoss\<close>: the loop over the connections and the
  assignment to \<open>correctedRadius\<close>.
\<close>

definition compensateVolumeLossBody :: "tools \<Rightarrow> cell \<Rightarrow> world \<Rightarrow> fault + world" where
  "compensateVolumeLossBody T me w =
     (let targetVol = getVolume (mem w me)
      in case foldE (volumeLossStep w me) (cellConnections (mem w me)) 0 of
           Inl e \<Rightarrow> Inl e
         | Inr volumeLoss \<Rightarrow>
             Inr (updMembrane me
                    (\<lambda>m. m\<lparr>correctedRadius :=
                             roundN T (cbrt T ((targetVol + 1.3 * volumeLoss) / ((4 / 3) * pi)))\<rparr>)
                    w))"

text \<open>
  \<open>compensateVolumeLoss\<close> is declared to return a \<open>double\<close> and has no \<open>return\<close>
  statement: after its statements the function reaches its closing brace, which is
  undefined behaviour.  No call returns a world and a value.
\<close>

definition compensateVolumeLoss :: "tools \<Rightarrow> cell \<Rightarrow> world \<Rightarrow> fault + world \<times> real" where
  "compensateVolumeLoss T me w =
     (case compensateVolumeLossBody T me w of
        Inl e \<Rightarrow> Inl e
      | Inr w' \<Rightarrow> Inl MissingReturn)"

section \<open>The cell-cell connection manager\<close>

text \<open>
  Modelled from the spec: \<open>CellCellConnectionManager_vector\<close> (cellcellconnectionmanager.hpp)
  is not part of the sources at hand.  The spec: the adjacency graph is "indexable both as a
  flat container (for iteration) and as a per-cell neighbor set (for O(1) are these two
  connected checks).  Both views must stay consistent: any insertion/removal updates both."
  So \<open>areConnected\<close> looks the second cell up in the neighbour set of the first;
  \<open>createConnection\<close> allocates the connection at an address the container does not hold,
  appends it to the container and to the connections of both cells, and enters each cell in
  the neighbour set of the other; \<open>disconnect\<close> takes all of this back.
\<close>

definition areConnected :: "world \<Rightarrow> cell \<Rightarrow> cell \<Rightarrow> bool" where
  "areConnected w c0 c1 = (c1 \<in> set (connectedCells (cells w c0)))"

definition newConnPtr :: "world \<Rightarrow> connptr" where
  "newConnPtr w = Suc (fold max (container w) 0)"

definition CCCM_createConnection ::
  "cell \<Rightarrow> cell \<Rightarrow> spring \<Rightarrow> joint \<times> joint \<Rightarrow> joint \<times> joint \<Rightarrow> world \<Rightarrow> world" where
  "CCCM_createConnection c0 c1 s fl tors w =
     (let p = newConnPtr w;
          w1 = w\<lparr>container := container w @ [p],
                 conns := (conns w)(p := \<lparr>node0 = c0, node1 = c1, sc = s, flex = fl,
                                          torsion = tors\<rparr>)\<rparr>;
          w2 = updMembrane c0 (\<lambda>m. m\<lparr>cellConnections := cellConnections m @ [p]\<rparr>) w1;
          w3 = updMembrane c1 (\<lambda>m. m\<lparr>cellConnections := cellConnections m @ [p]\<rparr>) w2;
          w4 = updCell c0 (\<lambda>c. c\<lparr>connectedCells := List.insert c1 (connectedCells c)\<rparr>) w3
      in updCell c1 (\<lambda>c. c\<lparr>connectedCells := List.insert c0 (connectedCells c)\<rparr>) w4)"

definition CCCM_disconnect :: "cell \<Rightarrow> cell \<Rightarrow> connptr \<Rightarrow> world \<Rightarrow> world" where
  "CCCM_disconnect c0 c1 p w =
     (let w1 = updMembrane c0 (\<lambda>m. m\<lparr>cellConnections := removeAll p (cellConnections m)\<rparr>) w;
          w2 = updMembrane c1 (\<lambda>m. m\<lparr>cellConnections := removeAll p (cellConnections m)\<rparr>) w1;
          w3 = updCell c0 (\<lambda>c. c\<lparr>connectedCells := removeAll c1 (connectedCells c)\<rparr>) w2;
          w4 = updCell c1 (\<lambda>c. c\<lparr>connectedCells := removeAll c0 (connectedCells c)\<rparr>) w3
      in w4\<lparr>container := removeAll p (container w4)\<rparr>)"

definition joins :: "world \<Rightarrow> cell \<Rightarrow> cell \<Rightarrow> connptr \<Rightarrow> bool" where
  "joins w a b p =
     ((node0 (conns w p) = a \<and> node1 (conns w p) = b) \<or>
      (node0 (conns w p) = b \<and> node1 (conns w p) = a))"

text \<open>The overload of \<open>disconnect\<close> without a connection: it disconnects the connection of
  the container that joins the two cells, if there is one.\<close>

definition CCCM_disconnectCells :: "cell \<Rightarrow> cell \<Rightarrow> world \<Rightarrow> world" where
  "CCCM_disconnectCells c0 c1 w =
     (case find (joins w c0 c1) (container w) of
        None \<Rightarrow> w
      | Some p \<Rightarrow> CCCM_disconnect c0 c1 p w)"

text \<open>
  Modelled from the spec: the constructors \<open>Spring(k, c, l)\<close> and \<open>Joint(k, c, maxTeta)\<close> and
  \<open>setCurrentKCoef\<close> of connection.h, "a damped linear spring (rest length, stiffness,
  damping) and a pair of angular joints (max-angle torsional spring)".  The cached length and
  direction of a new spring and the coefficient of a new joint are written before the
  functions below read them; they start at zero here.
\<close>

definition Spring :: "real \<Rightarrow> real \<Rightarrow> real \<Rightarrow> spring" where
  "Spring k c l = \<lparr>sp_k = k, sp_c = c, sp_restLength = l, sp_length = 0, sp_direction = (0, 0, 0)\<rparr>"

definition Joint :: "real \<Rightarrow> real \<Rightarrow> real \<Rightarrow> joint" where
  "Joint k c t = \<lparr>jt_k = k, jt_c = c, jt_maxTeta = t, jt_currentKCoef = 0\<rparr>"


definition createConnection :: "tools \<Rightarrow> cell \<Rightarrow> cell \<Rightarrow> world \<Rightarrow> fault + world" where
  "createConnection T c0 c1 w =
     (let l = roundN T (getConnectionLengthCells T w c0 c1);
          membrane0 = mem w c0;
          membrane1 = mem w c1;
          vol0 = getVolume membrane0;
          vol1 = getVolume membrane1;
          volProportion = roundN T (vol0 + vol1)
      in case fdiv (stiffness membrane0 * vol0 + stiffness membrane1 * vol1) volProportion of
           Inl e \<Rightarrow> Inl e
         | Inr kq \<Rightarrow>
            (case fdiv (dampRatio membrane0 * vol0 + dampRatio membrane1 * vol1) volProportion of
               Inl e \<Rightarrow> Inl e
             | Inr drq \<Rightarrow>
                 let k = roundN T kq;
                     dr = roundN T drq;
                     joints =
                       (Joint (angularStiffness membrane0)
                          (dampingFromRatio T dr (getMomentOfInertia (cells w c0) * 2)
                             (angularStiffness membrane0))
                          (maxTeta membrane0),
                        Joint (angularStiffness membrane1)
                          (dampingFromRatio T dr (getMomentOfInertia (cells w c1) * 2)
                             (angularStiffness membrane1))
                          (maxTeta membrane1))
                 in Inr (CCCM_createConnection c0 c1
                           (Spring k
                              (roundN T (dampingFromRatio T dr
                                           (mass (cells w c0) + mass (cells w c1)) k))
                              l)
                           joints joints w)))"

section \<open>Looking for new cell-cell connections\<close>

text \<open>The pairs \<open>(xs[j], xs[k])\<close> with \<open>j < k\<close>, in the order of the two inner loops.\<close>

fun orderedPairs :: "'a list \<Rightarrow> ('a \<times> 'a) list" where
  "orderedPairs [] = []"
| "orderedPairs (x # xs) = map (Pair x) xs @ orderedPairs xs"

text \<open>All pairs the four nested loops visit: every batch, every list of the batch.\<close>

definition gridPairs :: "cell list list list \<Rightarrow> (cell \<times> cell) list" where
  "gridPairs gridCells = concat (map orderedPairs (concat gridCells))"

definition sqDistance :: "tools \<Rightarrow> world \<Rightarrow> cell \<times> cell \<Rightarrow> real" where
  "sqDistance T w op =
     sqlength (roundNv T (vminus (position (cells w (fst op))) (position (cells w (snd op)))))"

definition sqMaxLength :: "world \<Rightarrow> cell \<times> cell \<Rightarrow> real" where
  "sqMaxLength w op = (correctedRadius (mem w (fst op)) + correctedRadius (mem w (snd op))) ^ 2"

text \<open>
  The precise test of the pair \<open>op\<close>: the distance of the centres against the sum of the
  two rounded membrane distances along the axis.  The two queries update connections, so the
  world is returned with the outcome.
\<close>

definition preciseTest :: "tools \<Rightarrow> world \<Rightarrow> cell \<times> cell \<Rightarrow> fault + (world \<times> bool)" where
  "preciseTest T w op =
     (let AB = roundNv T (vminus (position (cells w (fst op))) (position (cells w (snd op))));
          dist = sqrt (sqDistance T w op)
      in case vdiv AB dist of
           Inl e \<Rightarrow> Inl e
         | Inr dir \<Rightarrow>
            (case getConnectedCellAndMembraneDistance T w (fst op) dir of
               Inl e \<Rightarrow> Inl e
             | Inr (w1, cells0, d0) \<Rightarrow>
                (case getConnectedCellAndMembraneDistance T w1 (snd op) (vneg dir) of
                   Inl e \<Rightarrow> Inl e
                 | Inr (w2, cells1, d1) \<Rightarrow> Inr (w2, dist < roundN T d0 + roundN T d1))))"

text \<open>
  The body of the innermost loop of \<open>checkForCellCellConnections\<close> for the cells \<open>a\<close> and
  \<open>b\<close>; the state of the loop is the world and \<open>newConnections\<close>, a set kept as a list
  without repetition in the order of insertion.
\<close>

definition testPair ::
  "tools \<Rightarrow> cell \<times> cell \<Rightarrow> world \<times> (cell \<times> cell) list
     \<Rightarrow> fault + (world \<times> (cell \<times> cell) list)" where
  "testPair T ab s =
     (case s of (w, newConnections) \<Rightarrow>
        let op = make_ordered_cell_pair (fst ab) (snd ab)
        in if sqDistance T w op \<le> sqMaxLength w op then
             if \<not> areConnected w (fst op) (snd op) \<and> op \<notin> set newConnections \<and> fst op \<noteq> snd op
             then
               (case preciseTest T w op of
                  Inl e \<Rightarrow> Inl e
                | Inr (w2, near) \<Rightarrow>
                    if near then Inr (w2, newConnections @ [op]) else Inr (w2, newConnections))
             else Inr (w, newConnections)
           else Inr (w, newConnections))"

definition checkForCellCellConnections :: "tools \<Rightarrow> cell list \<Rightarrow> world \<Rightarrow> fault + world" where
  "checkForCellCellConnections T cs w =
     (let w1 = fold (updateLengthDirection T) (container w) w;
          gridCells = getThreadSafeGrid T cs
      in case foldE (testPair T) (gridPairs gridCells) (w1, []) of
           Inl e \<Rightarrow> Inl e
         | Inr (w2, newConnections) \<Rightarrow>
             foldE (\<lambda>nc. createConnection T (fst nc) (snd nc)) newConnections w2)"

section \<open>Updating and removing cell-cell connections\<close>





definition disconnectAndDeleteAllConnections :: "cell \<Rightarrow> world \<Rightarrow> world" where
  "disconnectAndDeleteAllConnections c0 w =
     (let cop = connectedCells (cells w c0)
      in fold (\<lambda>c1. CCCM_disconnectCells c0 c1) cop w)"

section \<open>Collisions of cells with models\<close>

definition addModelConnection :: "mcptr \<Rightarrow> membrane \<Rightarrow> membrane" where
  "addModelConnection p m = m\<lparr>modelConnections := modelConnections m @ [p]\<rparr>"

definition removeModelConnection :: "mcptr \<Rightarrow> membrane \<Rightarrow> membrane" where
  "removeModelConnection p m = m\<lparr>modelConnections := removeAll p (modelConnections m)\<rparr>"

text \<open>The first loop: every connection of the container is marked dirty.\<close>

definition markAllDirty ::
  "(model \<times> (cell \<times> modelconnection list) list) list
     \<Rightarrow> (model \<times> (cell \<times> modelconnection list) list) list" where
  "markAllDirty cmcs =
     map (\<lambda>m. (fst m, map (\<lambda>c. (fst c, map (\<lambda>conn. conn\<lparr>dirty := True\<rparr>) (snd c))) (snd m))) cmcs"

text \<open>\<open>count(m) && [m].count(c)\<close> and the vector found there.\<close>

definition connectionsOf ::
  "(model \<times> (cell \<times> modelconnection list) list) list \<Rightarrow> model \<Rightarrow> cell
     \<Rightarrow> modelconnection list option" where
  "connectionsOf cmcs m c = (case map_of cmcs m of None \<Rightarrow> None | Some cs \<Rightarrow> map_of cs c)"

text \<open>\<open>operator[]\<close> of a map followed by a change of the value: a missing key is entered
  with the default value first.\<close>

fun updEntry :: "'k \<Rightarrow> ('v \<Rightarrow> 'v) \<Rightarrow> 'v \<Rightarrow> ('k \<times> 'v) list \<Rightarrow> ('k \<times> 'v) list" where
  "updEntry key f dflt [] = [(key, f dflt)]"
| "updEntry key f dflt (kv # rest) =
     (if fst kv = key then (fst kv, f (snd kv)) # rest else kv # updEntry key f dflt rest)"

text \<open>Case 2 of the collision loop: the existing connection \<open>otherconn\<close> is updated.\<close>

definition updateExisting ::
  "tools \<Rightarrow> cellrec \<Rightarrow> vec \<Rightarrow> vec \<Rightarrow> nat \<Rightarrow> modelconnection \<Rightarrow> modelconnection" where
  "updateExisting T c currentDirection proj face otherconn =
     (let oc = otherconn\<lparr>dirty := False, bounce_position := proj, bounce_face := face\<rparr>
      in if sp_length (anchor_sc oc) > 0 then
           let anchorDirection = sp_direction (anchor_sc oc);
               crossp = cross currentDirection (cross currentDirection anchorDirection)
           in if sqlength crossp > radius (membrane c) * 0.02 then
                let crosspn = normalized T crossp;
                    projLength = min (dot (vminus (anchor_position oc) (position c)) crosspn)
                                     (radius (membrane c))
                in oc\<lparr>anchor_position := vplus (position c) (vscale projLength crosspn)\<rparr>
              else oc
         else oc)"

text \<open>The loop over the connections of the same model and cell, left at the first
  connection whose previous direction is similar enough; the flag is \<open>alreadyExist\<close>.\<close>

fun mergeLoop ::
  "tools \<Rightarrow> cellrec \<Rightarrow> vec \<Rightarrow> vec \<Rightarrow> nat \<Rightarrow> modelconnection list
     \<Rightarrow> bool \<times> modelconnection list" where
  "mergeLoop T c currentDirection proj face [] = (False, [])"
| "mergeLoop T c currentDirection proj face (otherconn # rest) =
     (let prevDirection = normalized T (vminus (bounce_position otherconn) (prevposition c))
      in if dot prevDirection currentDirection > 0.8
         then (True, updateExisting T c currentDirection proj face otherconn # rest)
         else (fst (mergeLoop T c currentDirection proj face rest),
               otherconn # snd (mergeLoop T c currentDirection proj face rest)))"

definition newModelPtr :: "world \<Rightarrow> mcptr" where
  "newModelPtr w =
     Suc (fold max (map mc_ptr (concat (map snd (concat (map snd (cellModelConnections w)))))) 0)"

text \<open>Case 1: the new connection of cell \<open>c\<close> with the face \<open>face\<close> of model \<open>m\<close>.
  Modelled from the spec: the constructor of \<open>CellModelConnection\<close> (modelconnection.hpp);
  connections are "un-marked when matched" and "any connection still dirty after the sweep
  is removed", so a new connection is not dirty.\<close>

definition newModelConnection ::
  "tools \<Rightarrow> world \<Rightarrow> cell \<Rightarrow> model \<Rightarrow> nat \<Rightarrow> vec \<Rightarrow> modelconnection" where
  "newModelConnection T w c m face proj =
     (let adh = getAdhesionWithModel T c m;
          l = mix (MAX_CELL_ADH_LENGTH T * correctedRadius (mem w c))
                  (MIN_CELL_ADH_LENGTH T * correctedRadius (mem w c)) adh
      in \<lparr>mc_ptr = newModelPtr w, dirty = False,
           anchor_position = position (cells w c),
           anchor_sc = Spring 100 (dampingFromRatio T 0.9 (mass (cells w c)) 100) 0,
           anchor_tjEnabled = False,
           bounce_position = proj, bounce_face = face,
           bounce_sc = Spring (stiffness (mem w c))
                         (dampingFromRatio T (dampRatio (mem w c)) (mass (cells w c))
                            (stiffness (mem w c) * 1))
                         l\<rparr>)"

text \<open>The body of the loop over the pairs (model, face) retrieved for the cell \<open>c\<close>.\<close>

definition collideStep :: "tools \<Rightarrow> cell \<Rightarrow> model \<times> nat \<Rightarrow> world \<Rightarrow> world" where
  "collideStep T c mf w =
     (let p = faceVertices T (fst mf) (snd mf);
          projec = projectionIntriangle T (fst p) (fst (snd p)) (snd (snd p))
                     (position (cells w c));
          currentDirection = vminus (snd projec) (position (cells w c))
      in if fst projec \<and> sqlength currentDirection < (correctedRadius (mem w c)) ^ 2 then
           let cd = normalized T currentDirection
           in case connectionsOf (cellModelConnections w) (fst mf) c of
                None \<Rightarrow>
                  let cmc = newModelConnection T w c (fst mf) (snd mf) (snd projec)
                  in (updMembrane c (addModelConnection (mc_ptr cmc)) w)
                       \<lparr>cellModelConnections :=
                          updEntry (fst mf) (updEntry c (\<lambda>v. v @ [cmc]) []) []
                            (cellModelConnections w)\<rparr>
              | Some v \<Rightarrow>
                  let r = mergeLoop T (cells w c) cd (snd projec) (snd mf) v;
                      w1 = w\<lparr>cellModelConnections :=
                              updEntry (fst mf) (updEntry c (\<lambda>_. snd r) []) []
                                (cellModelConnections w)\<rparr>
                  in if \<not> fst r then
                       let cmc = newModelConnection T w1 c (fst mf) (snd mf) (snd projec)
                       in (updMembrane c (addModelConnection (mc_ptr cmc)) w1)
                            \<lparr>cellModelConnections :=
                               updEntry (fst mf) (updEntry c (\<lambda>v. v @ [cmc]) []) []
                                 (cellModelConnections w1)\<rparr>
                     else w1
         else w)"

definition collideCell :: "tools \<Rightarrow> cell \<Rightarrow> world \<Rightarrow> world" where
  "collideCell T c w =
     (let toTest = retrieve T (position (cells w c)) (correctedRadius (mem w c))
      in fold (collideStep T c) toTest w)"

text \<open>Clean up, dirty connections: each is taken from the membrane of its cell and erased
  from its vector.\<close>

definition sweepDirty :: "world \<Rightarrow> world" where
  "sweepDirty w =
     (let dead = concat (map (\<lambda>m. concat (map (\<lambda>c. map (\<lambda>conn. (fst c, mc_ptr conn))
                                                        (filter dirty (snd c)))
                                            (snd m)))
                          (cellModelConnections w));
          w1 = fold (\<lambda>d. updMembrane (fst d) (removeModelConnection (snd d))) dead w
      in w1\<lparr>cellModelConnections :=
              map (\<lambda>m. (fst m, map (\<lambda>c. (fst c, filter (\<lambda>conn. \<not> dirty conn) (snd c))) (snd m)))
                (cellModelConnections w)\<rparr>)"

text \<open>Clean up, empty entries: an entry of a model whose map is empty is erased; otherwise
  the entries of its cells whose vector is empty are erased, and the loop goes on to the
  next model.\<close>

fun cleanEmptyEntries ::
  "(model \<times> (cell \<times> modelconnection list) list) list
     \<Rightarrow> (model \<times> (cell \<times> modelconnection list) list) list" where
  "cleanEmptyEntries [] = []"
| "cleanEmptyEntries (m # rest) =
     (if snd m = [] then cleanEmptyEntries rest
      else (fst m, filter (\<lambda>c. snd c \<noteq> []) (snd m)) # cleanEmptyEntries rest)"

definition checkForCellModelCollisions :: "tools \<Rightarrow> cell list \<Rightarrow> world \<Rightarrow> world" where
  "checkForCellModelCollisions T cs w =
     (let w0 = w\<lparr>cellModelConnections := markAllDirty (cellModelConnections w)\<rparr>;
          w1 = fold (collideCell T) cs w0;
          w2 = sweepDirty w1
      in w2\<lparr>cellModelConnections := cleanEmptyEntries (cellModelConnections w2)\<rparr>)"

section \<open>The claims in the words of the specification\<close>

text \<open>
  The length and direction that \<open>updateLengthDirection\<close> computes for the connection at
  \<open>p\<close>, the other end of that connection seen from the cell \<open>me\<close>, the outward normal of
  the connection from \<open>me\<close>, the radius-weighted contact midpoint, the test for a
  candidate along the direction \<open>d\<close>, the distance of a candidate along \<open>d\<close>, and the scan
  for the closest candidates.
\<close>

definition freshLD :: "tools \<Rightarrow> world \<Rightarrow> connptr \<Rightarrow> real \<times> vec" where
  "freshLD T w p =
     lengthDirection T (position (cells w (node0 (conns w p))))
                       (position (cells w (node1 (conns w p))))"

definition otherCellOf :: "world \<Rightarrow> cell \<Rightarrow> connptr \<Rightarrow> cell" where
  "otherCellOf w me p = (if me = node0 (conns w p) then node1 (conns w p) else node0 (conns w p))"

definition outwardNormal :: "tools \<Rightarrow> world \<Rightarrow> cell \<Rightarrow> connptr \<Rightarrow> vec" where
  "outwardNormal T w me p =
     (if me = node0 (conns w p) then vneg (snd (freshLD T w p)) else snd (freshLD T w p))"

definition contactMidpoint :: "tools \<Rightarrow> world \<Rightarrow> cell \<Rightarrow> connptr \<Rightarrow> real" where
  "contactMidpoint T w me p =
     fst (freshLD T w p) * radius (mem w me)
       / (radius (mem w me) + radius (mem w (otherCellOf w me p)))"

definition isCandidate :: "tools \<Rightarrow> world \<Rightarrow> cell \<Rightarrow> vec \<Rightarrow> connptr \<Rightarrow> bool" where
  "isCandidate T w me d p = (dot (outwardNormal T w me p) d < 0)"

definition candidateDistance :: "tools \<Rightarrow> world \<Rightarrow> cell \<Rightarrow> vec \<Rightarrow> connptr \<Rightarrow> real" where
  "candidateDistance T w me d p = - contactMidpoint T w me p / dot (outwardNormal T w me p) d"

definition candidatesOf ::
  "tools \<Rightarrow> world \<Rightarrow> cell \<Rightarrow> vec \<Rightarrow> connptr list \<Rightarrow> (cell \<times> real) list" where
  "candidatesOf T w me d ps =
     map (\<lambda>p. (otherCellOf w me p, candidateDistance T w me d p))
       (filter (isCandidate T w me d) ps)"

definition candidates :: "tools \<Rightarrow> world \<Rightarrow> cell \<Rightarrow> vec \<Rightarrow> (cell \<times> real) list" where
  "candidates T w me d = candidatesOf T w me d (cellConnections (mem w me))"

fun closestScan ::
  "(real \<Rightarrow> real \<Rightarrow> bool) \<Rightarrow> (cell \<times> real) list \<Rightarrow> cell list \<times> real \<Rightarrow> cell list \<times> real" where
  "closestScan fe [] acc = acc"
| "closestScan fe (ol # rest) acc =
     (if fe (snd ol) (snd acc) then closestScan fe rest (fst acc @ [fst ol], snd acc)
      else if snd ol < snd acc then closestScan fe rest ([fst ol], snd ol)
      else closestScan fe rest acc)"

section \<open>Concrete inputs\<close>

text \<open>
  Values of the parameters for running the definitions on concrete inputs: rounding to six
  decimals, a tolerance of one millionth, an adhesion threshold of 0.1 with the multiples 0.8
  and 0.6, Euclidean length and direction, no adhesion, no forces, one grid cell that holds
  every cell, no model face nearby, and the real cube root.
\<close>

definition exampleTools :: tools where
  "exampleTools =
     \<lparr>roundN = roundDecimal 6,
      fuzzyEqual = (\<lambda>a b. \<bar>a - b\<bar> < 1 / 10 ^ 6),
      ADH_THRESHOLD = 1 / 10,
      MAX_CELL_ADH_LENGTH = 8 / 10,
      MIN_CELL_ADH_LENGTH = 6 / 10,
      dampingFromRatio = (\<lambda>r m k. r * 2 * sqrt (m * k)),
      normalized = (\<lambda>v. vscale (1 / sqrt (sqlength v)) v),
      lengthDirection =
        (\<lambda>p0 p1. (sqrt (sqlength (vminus p1 p0)),
                   vscale (1 / sqrt (sqlength (vminus p1 p0))) (vminus p1 p0))),
      getAdhesionWith = (\<lambda>a b. 0),
      getAdhesionWithModel = (\<lambda>a m. 0),
      computeForces = (\<lambda>dt con a b. (((0, 0, 0), (0, 0, 0)), ((0, 0, 0), (0, 0, 0)))),
      getThreadSafeGrid = (\<lambda>cs. [[cs]]),
      retrieve = (\<lambda>p r. []),
      faceVertices = (\<lambda>m f. ((0, 0, 0), (0, 0, 0), (0, 0, 0))),
      projectionIntriangle = (\<lambda>p0 p1 p2 p. (False, p)),
      cbrt = root 3\<rparr>"

text \<open>A membrane of radius \<open>r\<close> without connections, a cell at \<open>pos\<close> with such a
  membrane, the world of cells at the origin without any connection, the same world with
  cells of radius \<open>r\<close>, and the world in which the cells 2 and 3, of radius 1 and at
  distance \<open>x\<close> on the first axis, are joined by the connection at address 7.\<close>

definition sphere :: "real \<Rightarrow> membrane" where
  "sphere r =
     \<lparr>cellConnections = [], modelConnections = [], baseRadius = r, radius = r,
      correctedRadius = r, stiffness = 10, dampRatio = 1, angularStiffness = 3,
      maxTeta = pi / 12, pressure = 0, volumeConservation = True\<rparr>"

definition cellAt :: "vec \<Rightarrow> real \<Rightarrow> cellrec" where
  "cellAt pos r =
     \<lparr>position = pos, prevposition = pos, mass = 1, force = (0, 0, 0), torque = (0, 0, 0),
      totalForce = 0, connectedCells = [], membrane = sphere r\<rparr>"

definition emptyConnection :: connection where
  "emptyConnection =
     \<lparr>node0 = 0, node1 = 0, sc = Spring 0 0 0, flex = (Joint 0 0 0, Joint 0 0 0),
      torsion = (Joint 0 0 0, Joint 0 0 0)\<rparr>"

definition emptyWorld :: world where
  "emptyWorld =
     \<lparr>cells = (\<lambda>c. cellAt (0, 0, 0) 1), container = [], conns = (\<lambda>p. emptyConnection),
      cellModelConnections = []\<rparr>"

definition isolatedWorld :: "real \<Rightarrow> world" where
  "isolatedWorld r = emptyWorld\<lparr>cells := (\<lambda>c. cellAt (0, 0, 0) r)\<rparr>"

definition pairWorld :: "real \<Rightarrow> world" where
  "pairWorld x =
     \<lparr>cells = (\<lambda>c. cellAt (0, 0, 0) 1)
        (2 := (cellAt (0, 0, 0) 1)\<lparr>connectedCells := [3],
                 membrane := (sphere 1)\<lparr>cellConnections := [7]\<rparr>\<rparr>,
         3 := (cellAt (x, 0, 0) 1)\<lparr>connectedCells := [2],
                 membrane := (sphere 1)\<lparr>cellConnections := [7]\<rparr>\<rparr>),
      container = [7],
      conns = (\<lambda>p. emptyConnection)(7 := emptyConnection\<lparr>node0 := 2, node1 := 3\<rparr>),
      cellModelConnections = []\<rparr>"

text \<open>The two connected cells at distance 1, the first of them also connected to the
  model 9 by the cell-model connection at address 5.\<close>

definition exampleModelConnection :: modelconnection where
  "exampleModelConnection =
     \<lparr>mc_ptr = 5, dirty = False, anchor_position = (0, 0, 0), anchor_sc = Spring 100 0 0,
      anchor_tjEnabled = False, bounce_position = (0, - 1, 0), bounce_face = 0,
      bounce_sc = Spring 10 0 1\<rparr>"

definition meshWorld :: world where
  "meshWorld =
     (updMembrane 2 (addModelConnection 5) (pairWorld 1))
       \<lparr>cellModelConnections := [(9, [(2, [exampleModelConnection])])]\<rparr>"

text \<open>
  The unordered pair of cells a connection joins, the pairs joined by the connections of
  the container, and the invariant of the graph: no pair is joined twice, no connection
  joins a cell to itself, and each end of a connection is in the neighbour set of the other.
  \<open>sameGraph\<close> relates two worlds with the same cells, the same container and the
  same ends of every connection; \<open>goodProposals\<close> describes the list \<open>newConnections\<close>.
  In \<open>apartWorld x\<close> no cells are connected and cell 3 is at distance \<open>x\<close> from cell 2.
\<close>

definition endpoints :: "world \<Rightarrow> connptr \<Rightarrow> cell \<times> cell" where
  "endpoints w p = make_ordered_cell_pair (node0 (conns w p)) (node1 (conns w p))"

definition connectedPairs :: "world \<Rightarrow> (cell \<times> cell) list" where
  "connectedPairs w = map (endpoints w) (container w)"

definition graphInvariant :: "world \<Rightarrow> bool" where
  "graphInvariant w =
     (distinct (connectedPairs w) \<and>
      (\<forall>p \<in> set (container w).
         node0 (conns w p) \<noteq> node1 (conns w p) \<and>
         areConnected w (node0 (conns w p)) (node1 (conns w p)) \<and>
         areConnected w (node1 (conns w p)) (node0 (conns w p))))"

definition sameGraph :: "world \<Rightarrow> world \<Rightarrow> bool" where
  "sameGraph w w' =
     (cells w' = cells w \<and> container w' = container w \<and>
      (\<forall>p. node0 (conns w' p) = node0 (conns w p) \<and> node1 (conns w' p) = node1 (conns w p)))"

definition apartWorld :: "real \<Rightarrow> world" where
  "apartWorld x = emptyWorld\<lparr>cells := (\<lambda>c. cellAt (0, 0, 0) 1)(3 := cellAt (x, 0, 0) 1)\<rparr>"

text \<open>In \<open>spacedWorld r x\<close> the cells have radius \<open>r\<close>, no cells are connected and
  cell 3 is at distance \<open>x\<close> from cell 2.\<close>

definition spacedWorld :: "real \<Rightarrow> real \<Rightarrow> world" where
  "spacedWorld r x = emptyWorld\<lparr>cells := (\<lambda>c. cellAt (0, 0, 0) r)(3 := cellAt (x, 0, 0) r)\<rparr>"

definition goodProposals :: "tools \<Rightarrow> world \<Rightarrow> (cell \<times> cell) list \<Rightarrow> bool" where
  "goodProposals T w nc =
     (distinct nc \<and>
      (\<forall>op \<in> set nc. make_ordered_cell_pair (fst op) (snd op) = op \<and> fst op \<noteq> snd op \<and>
          \<not> areConnected w (fst op) (snd op) \<and> sqDistance T w op \<le> sqMaxLength w op))"




definition sameGeometry :: "world \<Rightarrow> world \<Rightarrow> bool" where
  "sameGeometry w w' =
     (container w' = container w \<and>
      (\<forall>c. position (cells w' c) = position (cells w c) \<and>
           membrane (cells w' c) = membrane (cells w c)) \<and>
      (\<forall>p. node0 (conns w' p) = node0 (conns w p) \<and> node1 (conns w' p) = node1 (conns w p) \<and>
           sp_length (sc (conns w' p)) = sp_length (sc (conns w p)) \<and>
           sp_direction (sc (conns w' p)) = sp_direction (sc (conns w p))))"



section \<open>Facts about the nearest connected cells\<close>

lemma uld_simps [simp]:
  "cells (updateLengthDirection T q w) = cells w"
  "container (updateLengthDirection T q w) = container w"
  "cellModelConnections (updateLengthDirection T q w) = cellModelConnections w"
  "mem (updateLengthDirection T q w) c = mem w c"
  "node0 (conns (updateLengthDirection T q w) p) = node0 (conns w p)"
  "node1 (conns (updateLengthDirection T q w) p) = node1 (conns w p)"
  by (simp_all add: updateLengthDirection_def updConn_def Let_def mem_def)

lemma uld_fresh [simp]:
  "freshLD T (updateLengthDirection T q w) p = freshLD T w p"
  by (simp add: freshLD_def)

lemma uld_cache:
  "sp_length (sc (conns (updateLengthDirection T q w) q)) = fst (freshLD T w q)"
  "sp_direction (sc (conns (updateLengthDirection T q w) q)) = snd (freshLD T w q)"
  by (simp_all add: updateLengthDirection_def updConn_def Let_def freshLD_def)

lemma uld_otherCellOf [simp]:
  "otherCellOf (updateLengthDirection T q w) me p = otherCellOf w me p"
  by (simp add: otherCellOf_def)

lemma uld_outwardNormal [simp]:
  "outwardNormal T (updateLengthDirection T q w) me p = outwardNormal T w me p"
  by (simp add: outwardNormal_def)

lemma uld_contactMidpoint [simp]:
  "contactMidpoint T (updateLengthDirection T q w) me p = contactMidpoint T w me p"
  by (simp add: contactMidpoint_def)

lemma uld_isCandidate [simp]:
  "isCandidate T (updateLengthDirection T q w) me d = isCandidate T w me d"
  by (rule ext) (simp add: isCandidate_def)

lemma uld_candidatesOf [simp]:
  "candidatesOf T (updateLengthDirection T q w) me d ps = candidatesOf T w me d ps"
  by (simp add: candidatesOf_def candidateDistance_def)

lemma gccStep_world:
  "gccStep T me d cc (w, acc) = Inr (w', acc') \<Longrightarrow> w' = updateLengthDirection T cc w"
  by (cases acc) (auto simp: gccStep_def Let_def split: if_splits sum.splits)

lemma gccStep_result:
  "gccStep T me d cc (w, acc) = Inr (w', acc') \<Longrightarrow>
     acc' = closestScan (fuzzyEqual T) (candidatesOf T w me d [cc]) acc"
  by (cases acc)
     (auto simp: gccStep_def Let_def candidatesOf_def isCandidate_def candidateDistance_def
       contactMidpoint_def outwardNormal_def otherCellOf_def uld_cache fdiv_def
       split: if_splits sum.splits)

lemma candidatesOf_Cons:
  "candidatesOf T w me d (p # ps) = candidatesOf T w me d [p] @ candidatesOf T w me d ps"
  by (simp add: candidatesOf_def)

lemma closestScan_append:
  "closestScan fe (xs @ ys) acc = closestScan fe ys (closestScan fe xs acc)"
  by (induction xs arbitrary: acc) auto

lemma gccLoop_world:
  "foldE (gccStep T me d) ps (w, acc) = Inr (w', acc') \<Longrightarrow>
     w' = fold (updateLengthDirection T) ps w"
proof (induction ps arbitrary: w acc)
  case Nil
  then show ?case by simp
next
  case (Cons p ps)
  then obtain w1 acc1 where s: "gccStep T me d p (w, acc) = Inr (w1, acc1)"
    and r: "foldE (gccStep T me d) ps (w1, acc1) = Inr (w', acc')"
    by (auto split: sum.splits)
  from gccStep_world[OF s] Cons.IH[OF r] show ?case by simp
qed

lemma gccLoop_result:
  "foldE (gccStep T me d) ps (w, acc) = Inr (w', acc') \<Longrightarrow>
     acc' = closestScan (fuzzyEqual T) (candidatesOf T w me d ps) acc"
proof (induction ps arbitrary: w acc)
  case Nil
  then show ?case by (simp add: candidatesOf_def)
next
  case (Cons p ps)
  then obtain w1 acc1 where s: "gccStep T me d p (w, acc) = Inr (w1, acc1)"
    and r: "foldE (gccStep T me d) ps (w1, acc1) = Inr (w', acc')"
    by (auto split: sum.splits)
  have w1: "w1 = updateLengthDirection T p w" by (rule gccStep_world[OF s])
  have "acc' = closestScan (fuzzyEqual T) (candidatesOf T w me d ps) acc1"
    using Cons.IH[OF r] by (simp add: w1)
  with gccStep_result[OF s] show ?case
    by (subst candidatesOf_Cons) (simp add: closestScan_append)
qed


lemma closestScan_le: "snd (closestScan fe cs acc) \<le> snd acc"
proof (induction cs arbitrary: acc)
  case Nil
  show ?case by simp
next
  case (Cons ol cs)
  have a: "snd (closestScan fe cs (fst acc @ [fst ol], snd acc)) \<le> snd acc"
    using Cons.IH[of "(fst acc @ [fst ol], snd acc)"] by simp
  have b: "snd ol < snd acc \<Longrightarrow> snd (closestScan fe cs ([fst ol], snd ol)) \<le> snd acc"
    using Cons.IH[of "([fst ol], snd ol)"] by simp
  show ?case using a b Cons.IH[of acc] by simp
qed

lemma closestScan_dist:
  "snd (closestScan fe cs acc) = snd acc \<or> snd (closestScan fe cs acc) \<in> snd ` set cs"
proof (induction cs arbitrary: acc)
  case Nil
  show ?case by simp
next
  case (Cons ol cs)
  show ?case
    using Cons.IH[of "(fst acc @ [fst ol], snd acc)"] Cons.IH[of "([fst ol], snd ol)"]
      Cons.IH[of acc]
    by auto
qed

lemma closestScan_mem:
  "c \<in> set (fst (closestScan fe cs acc)) \<Longrightarrow>
     (c \<in> set (fst acc) \<and> snd (closestScan fe cs acc) = snd acc) \<or>
     (\<exists>l. (c, l) \<in> set cs \<and>
          (l = snd (closestScan fe cs acc) \<or> fe l (snd (closestScan fe cs acc))))"
proof (induction cs arbitrary: acc)
  case Nil
  then show ?case by simp
next
  case (Cons ol cs)
  show ?case
  proof (cases "fe (snd ol) (snd acc)")
    case True
    with Cons.prems have m: "c \<in> set (fst (closestScan fe cs (fst acc @ [fst ol], snd acc)))"
      by simp
    from Cons.IH[OF m] True show ?thesis
      by (cases ol) auto
  next
    case False
    show ?thesis
    proof (cases "snd ol < snd acc")
      case True
      with False Cons.prems have m: "c \<in> set (fst (closestScan fe cs ([fst ol], snd ol)))"
        by simp
      from Cons.IH[OF m] False True show ?thesis
        by (cases ol) auto
    next
      case nl: False
      with False Cons.prems have m: "c \<in> set (fst (closestScan fe cs acc))"
        by simp
      from Cons.IH[OF m] False nl show ?thesis
        by auto
    qed
  qed
qed

lemma closestScan_closest:
  "(c, l) \<in> set cs \<Longrightarrow>
     snd (closestScan fe cs acc) \<le> l \<or>
     (\<exists>x. (x = snd acc \<or> x \<in> snd ` set cs) \<and> snd (closestScan fe cs acc) \<le> x \<and> fe l x)"
proof (induction cs arbitrary: acc)
  case Nil
  then show ?case by simp
next
  case (Cons ol cs)
  obtain acc' where acc': "closestScan fe (ol # cs) acc = closestScan fe cs acc'"
    and sa: "snd acc' = snd acc \<or> snd acc' = snd ol"
    and hd: "(fe (snd ol) (snd acc) \<and> snd acc' = snd acc) \<or> snd acc' \<le> snd ol"
    by (cases "fe (snd ol) (snd acc)"; cases "snd ol < snd acc") auto
  have le: "snd (closestScan fe cs acc') \<le> snd acc'"
    by (rule closestScan_le)
  have sa': "snd acc' = snd acc \<or> snd acc' \<in> snd ` set (ol # cs)"
    using sa by auto
  show ?case
  proof (cases "(c, l) = ol")
    case True
    then have l: "snd ol = l" by auto
    from hd show ?thesis
    proof
      assume f: "fe (snd ol) (snd acc) \<and> snd acc' = snd acc"
      then have "fe l (snd acc)" using l by simp
      moreover have "snd (closestScan fe cs acc') \<le> snd acc"
        using le f by simp
      ultimately show ?thesis unfolding acc' by blast
    next
      assume "snd acc' \<le> snd ol"
      then have "snd (closestScan fe cs acc') \<le> l" using le l by linarith
      then show ?thesis unfolding acc' by (rule disjI1)
    qed
  next
    case False
    with Cons.prems have "(c, l) \<in> set cs" by simp
    from Cons.IH[OF this, of acc']
    consider "snd (closestScan fe cs acc') \<le> l"
      | x where "x = snd acc' \<or> x \<in> snd ` set cs" "snd (closestScan fe cs acc') \<le> x" "fe l x"
      by blast
    then show ?thesis
    proof cases
      case 1
      then show ?thesis unfolding acc' by (rule disjI1)
    next
      case 2
      from 2(1) sa' have "x = snd acc \<or> x \<in> snd ` set (ol # cs)"
        by auto
      with 2(2,3) show ?thesis unfolding acc' by blast
    qed
  qed
qed

section \<open>Volume, pressure and the query for the nearest cells\<close>

lemma roundDecimal_values:
  "roundDecimal 6 (1234567 / 10000000) = 123457 / 1000000"
  "roundDecimal 6 0 = 0" "roundDecimal 6 1 = 1" "roundDecimal 6 2 = 2"
  "roundDecimal 6 (- 1) = - 1"
  "roundDecimal 6 (1/2) = 1/2"
  unfolding roundDecimal_def round_def by simp_all

lemma computePressure_zero_radius:
  "radius (mem w c) = 0 \<Longrightarrow> computePressure T c w = Inl DivisionByZero"
  by (simp add: computePressure_def fdiv_def Let_def)

lemma lengthDirection_axis:
  "0 < x \<Longrightarrow> lengthDirection exampleTools (0, 0, 0) (x, 0, 0) = (x, (1, 0, 0))"
  by (simp add: exampleTools_def sqlength_def)

lemma pairWorld_simps:
  "container (pairWorld x) = [7]"
  "node0 (conns (pairWorld x) 7) = 2"
  "node1 (conns (pairWorld x) 7) = 3"
  "position (cells (pairWorld x) 2) = (0, 0, 0)"
  "position (cells (pairWorld x) 3) = (x, 0, 0)"
  "cellConnections (mem (pairWorld x) 2) = [7]"
  "cellConnections (mem (pairWorld x) 3) = [7]"
  "radius (mem (pairWorld x) 2) = 1"
  "radius (mem (pairWorld x) 3) = 1"
  "correctedRadius (mem (pairWorld x) 2) = 1"
  "correctedRadius (mem (pairWorld x) 3) = 1"
  by (simp_all add: pairWorld_def emptyConnection_def cellAt_def sphere_def mem_def)

lemma freshLD_pairWorld: "0 < x \<Longrightarrow> freshLD exampleTools (pairWorld x) 7 = (x, (1, 0, 0))"
  using lengthDirection_axis[of x]
  by (simp add: freshLD_def pairWorld_simps)

lemma candidates_pairWorld:
  "0 < x \<Longrightarrow> candidates exampleTools (pairWorld x) 2 (1, 0, 0) = [(3, x / 2)]"
  using freshLD_pairWorld[of x]
  by (simp add: candidates_def candidatesOf_def isCandidate_def candidateDistance_def
      contactMidpoint_def outwardNormal_def otherCellOf_def pairWorld_simps)

lemma gccStep_pairWorld:
  "0 < x \<Longrightarrow> gccStep exampleTools 2 (1, 0, 0) 7 (pairWorld x, [], 1) =
     Inr (updateLengthDirection exampleTools 7 (pairWorld x),
          closestScan (fuzzyEqual exampleTools) [(3, x / 2)] ([], 1))"
  using freshLD_pairWorld[of x]
  by (simp add: gccStep_def Let_def uld_cache pairWorld_simps fdiv_def)

lemma gcc_pairWorld:
  "0 < x \<Longrightarrow> getConnectedCellAndMembraneDistance exampleTools (pairWorld x) 2 (1, 0, 0) =
     Inr (updateLengthDirection exampleTools 7 (pairWorld x),
          closestScan (fuzzyEqual exampleTools) [(3, x / 2)] ([], 1))"
  by (simp add: getConnectedCellAndMembraneDistance_def pairWorld_simps gccStep_pairWorld)

lemma gcc_pairWorld_10:
  "getConnectedCellAndMembraneDistance exampleTools (pairWorld 10) 2 (1, 0, 0) =
     Inr (updateLengthDirection exampleTools 7 (pairWorld 10), [], 1)"
  by (simp add: gcc_pairWorld) (simp add: exampleTools_def)

lemma gcc_pairWorld_1:
  "getConnectedCellAndMembraneDistance exampleTools (pairWorld 1) 2 (1, 0, 0) =
     Inr (updateLengthDirection exampleTools 7 (pairWorld 1), [3], 1 / 2)"
  by (simp add: gcc_pairWorld) (simp add: exampleTools_def)


lemma gcc_result:
  assumes "getConnectedCellAndMembraneDistance T w me d = Inr (w', cs, cdist)"
  shows "(cs, cdist) =
           closestScan (fuzzyEqual T) (candidates T w me d) ([], correctedRadius (mem w me))"
  using gccLoop_result[OF assms[unfolded getConnectedCellAndMembraneDistance_def]]
  by (simp add: candidates_def)

lemma gcc_world:
  assumes "getConnectedCellAndMembraneDistance T w me d = Inr (w', cs, cdist)"
  shows "w' = fold (updateLengthDirection T) (cellConnections (mem w me)) w"
  using gccLoop_world[OF assms[unfolded getConnectedCellAndMembraneDistance_def]] .

lemma gccStep_total:
  assumes "cc \<in> set (container w)"
    and "radius (mem w me) + radius (mem w (otherCellOf w me cc)) \<noteq> 0"
  shows "\<exists>acc'. gccStep T me d cc (w, acc) = Inr (updateLengthDirection T cc w, acc')"
proof (cases "me = node0 (conns w cc)")
  case True
  with assms show ?thesis
    by (cases acc) (auto simp: gccStep_def Let_def fdiv_def otherCellOf_def)
next
  case False
  with assms show ?thesis
    by (cases acc) (auto simp: gccStep_def Let_def fdiv_def otherCellOf_def)
qed

lemma gccLoop_total:
  "\<forall>p \<in> set ps. p \<in> set (container w) \<and>
       radius (mem w me) + radius (mem w (otherCellOf w me p)) \<noteq> 0 \<Longrightarrow>
   \<exists>r. foldE (gccStep T me d) ps (w, acc) = Inr r"
proof (induction ps arbitrary: w acc)
  case Nil
  show ?case by simp
next
  case (Cons p ps)
  from Cons.prems obtain acc' where
    s: "gccStep T me d p (w, acc) = Inr (updateLengthDirection T p w, acc')"
    using gccStep_total[of p w me T d acc] by auto
  have "\<forall>q \<in> set ps. q \<in> set (container (updateLengthDirection T p w)) \<and>
          radius (mem (updateLengthDirection T p w) me) +
          radius (mem (updateLengthDirection T p w)
                    (otherCellOf (updateLengthDirection T p w) me q)) \<noteq> 0"
    using Cons.prems by simp
  from Cons.IH[OF this, of acc'] s show ?case by simp
qed

text \<open>
  C3, as amended.  \<open>getConnectedCellAndMembraneDistance\<close> returns whenever the connections
  of the cell are in the container and no sum of the two radii is zero.  Its result is the
  scan of the candidates, the connections whose outward normal has a negative dot product
  with \<open>d\<close>, each at the distance derived from the radius-weighted midpoint, started at the
  empty set and \<open>correctedRadius\<close>.  The distance returned never exceeds \<open>correctedRadius\<close>
  and is \<open>correctedRadius\<close> or the distance of a candidate; every cell returned is a
  candidate whose distance is the distance returned or \<open>fuzzyEqual\<close> to it; a candidate
  closer than the distance returned is \<open>fuzzyEqual\<close> to \<open>correctedRadius\<close> or to the
  distance of a candidate that is not closer than the distance returned; and without a
  candidate the result is the empty set and \<open>correctedRadius\<close>.
\<close>

theorem gcc_closest_candidates:
  "((\<forall>p \<in> set (cellConnections (mem w me)). p \<in> set (container w) \<and>
        radius (mem w me) + radius (mem w (otherCellOf w me p)) \<noteq> 0) \<longrightarrow>
      (\<exists>r. getConnectedCellAndMembraneDistance T w me d = Inr r)) \<and>
   (getConnectedCellAndMembraneDistance T w me d = Inr (w', cs, cdist) \<longrightarrow>
      (cs, cdist) =
         closestScan (fuzzyEqual T) (candidates T w me d) ([], correctedRadius (mem w me)) \<and>
      cdist \<le> correctedRadius (mem w me) \<and>
      (cdist = correctedRadius (mem w me) \<or> cdist \<in> snd ` set (candidates T w me d)) \<and>
      (\<forall>c \<in> set cs. \<exists>l. (c, l) \<in> set (candidates T w me d) \<and>
           (l = cdist \<or> fuzzyEqual T l cdist)) \<and>
      (\<forall>c l. (c, l) \<in> set (candidates T w me d) \<longrightarrow>
           cdist \<le> l \<or>
           (\<exists>x. (x = correctedRadius (mem w me) \<or> x \<in> snd ` set (candidates T w me d)) \<and>
                cdist \<le> x \<and> fuzzyEqual T l x)) \<and>
      (candidates T w me d = [] \<longrightarrow> cs = [] \<and> cdist = correctedRadius (mem w me)))"
proof (intro conjI impI)
  assume "\<forall>p \<in> set (cellConnections (mem w me)). p \<in> set (container w) \<and>
        radius (mem w me) + radius (mem w (otherCellOf w me p)) \<noteq> 0"
  from gccLoop_total[OF this] show "\<exists>r. getConnectedCellAndMembraneDistance T w me d = Inr r"
    by (simp add: getConnectedCellAndMembraneDistance_def)
next
  assume g: "getConnectedCellAndMembraneDistance T w me d = Inr (w', cs, cdist)"
  let ?scan = "closestScan (fuzzyEqual T) (candidates T w me d) ([], correctedRadius (mem w me))"
  show r: "(cs, cdist) = ?scan" by (rule gcc_result[OF g])
  then have cs: "cs = fst ?scan" and cdist: "cdist = snd ?scan"
    by (metis fst_conv, metis snd_conv)
  show "cdist \<le> correctedRadius (mem w me)"
    unfolding cdist
    using closestScan_le[of "fuzzyEqual T" "candidates T w me d" "([], correctedRadius (mem w me))"]
    by simp
  show "cdist = correctedRadius (mem w me) \<or> cdist \<in> snd ` set (candidates T w me d)"
    unfolding cdist
    using closestScan_dist[of "fuzzyEqual T" "candidates T w me d" "([], correctedRadius (mem w me))"]
    by simp
  show "\<forall>c \<in> set cs. \<exists>l. (c, l) \<in> set (candidates T w me d) \<and>
           (l = cdist \<or> fuzzyEqual T l cdist)"
  proof
    fix c assume "c \<in> set cs"
    then have "c \<in> set (fst ?scan)" by (simp add: cs)
    from closestScan_mem[OF this] show "\<exists>l. (c, l) \<in> set (candidates T w me d) \<and>
           (l = cdist \<or> fuzzyEqual T l cdist)"
      unfolding cdist by simp
  qed
  show "\<forall>c l. (c, l) \<in> set (candidates T w me d) \<longrightarrow>
           cdist \<le> l \<or>
           (\<exists>x. (x = correctedRadius (mem w me) \<or> x \<in> snd ` set (candidates T w me d)) \<and>
                cdist \<le> x \<and> fuzzyEqual T l x)"
  proof (intro allI impI)
    fix c l assume "(c, l) \<in> set (candidates T w me d)"
    from closestScan_closest[OF this, of "fuzzyEqual T" "([], correctedRadius (mem w me))"]
    show "cdist \<le> l \<or>
           (\<exists>x. (x = correctedRadius (mem w me) \<or> x \<in> snd ` set (candidates T w me d)) \<and>
                cdist \<le> x \<and> fuzzyEqual T l x)"
      unfolding cdist by simp
  qed
next
  assume g: "getConnectedCellAndMembraneDistance T w me d = Inr (w', cs, cdist)"
    and e: "candidates T w me d = []"
  from gcc_result[OF g] e show "cs = []" by simp
next
  assume g: "getConnectedCellAndMembraneDistance T w me d = Inr (w', cs, cdist)"
    and e: "candidates T w me d = []"
  from gcc_result[OF g] e show "cdist = correctedRadius (mem w me)" by simp
qed

text \<open>
  C10.  The distance returned by \<open>getConnectedCellAndMembraneDistance\<close> never exceeds
  \<open>correctedRadius\<close>, and a neighbour all of whose candidate distances are greater than
  \<open>correctedRadius\<close> and \<open>fuzzyEqual\<close> to no distance up to \<open>correctedRadius\<close> is not
  returned.
\<close>

theorem gcc_within_correctedRadius:
  assumes "getConnectedCellAndMembraneDistance T w me d = Inr (w', cs, cdist)"
  shows "cdist \<le> correctedRadius (mem w me) \<and>
     (\<forall>c. (\<forall>l. (c, l) \<in> set (candidates T w me d) \<longrightarrow>
               correctedRadius (mem w me) < l \<and>
               (\<forall>x. x \<le> correctedRadius (mem w me) \<longrightarrow> \<not> fuzzyEqual T l x)) \<longrightarrow>
          c \<notin> set cs)"
proof -
  let ?scan = "closestScan (fuzzyEqual T) (candidates T w me d) ([], correctedRadius (mem w me))"
  have r: "(cs, cdist) = ?scan" by (rule gcc_result[OF assms])
  then have cs: "cs = fst ?scan" and cdist: "cdist = snd ?scan"
    by (metis fst_conv, metis snd_conv)
  have le: "cdist \<le> correctedRadius (mem w me)"
    unfolding cdist
    using closestScan_le[of "fuzzyEqual T" "candidates T w me d" "([], correctedRadius (mem w me))"]
    by simp
  have "c \<notin> set cs"
    if far: "\<forall>l. (c, l) \<in> set (candidates T w me d) \<longrightarrow>
               correctedRadius (mem w me) < l \<and>
               (\<forall>x. x \<le> correctedRadius (mem w me) \<longrightarrow> \<not> fuzzyEqual T l x)" for c
  proof
    assume "c \<in> set cs"
    then have "c \<in> set (fst ?scan)" by (simp add: cs)
    from closestScan_mem[OF this] obtain l where
      l: "(c, l) \<in> set (candidates T w me d)" and n: "l = cdist \<or> fuzzyEqual T l cdist"
      unfolding cdist by auto
    from far l have "correctedRadius (mem w me) < l" and "\<not> fuzzyEqual T l cdist"
      using le by auto
    with n le show False by auto
  qed
  with le show ?thesis by blast
qed


theorem gcc_closest_candidates_witness:
  "7 \<in> set (container (pairWorld 1)) \<and>
   radius (mem (pairWorld 1) 2) + radius (mem (pairWorld 1) (otherCellOf (pairWorld 1) 2 7)) \<noteq> 0 \<and>
   getConnectedCellAndMembraneDistance exampleTools (pairWorld 1) 2 (1, 0, 0) =
     Inr (updateLengthDirection exampleTools 7 (pairWorld 1), [3], 1 / 2) \<and>
   candidates exampleTools (pairWorld 1) 2 (1, 0, 0) = [(3, 1 / 2)] \<and>
   (1 / 2 :: real) \<le> correctedRadius (mem (pairWorld 1) 2) \<and>
   (3, 1 / 2) \<in> set (candidates exampleTools (pairWorld 1) 2 (1, 0, 0))"
proof -
  have h1: "\<forall>p \<in> set (cellConnections (mem (pairWorld 1) 2)). p \<in> set (container (pairWorld 1)) \<and>
        radius (mem (pairWorld 1) 2) + radius (mem (pairWorld 1) (otherCellOf (pairWorld 1) 2 p)) \<noteq> 0"
    by (simp add: pairWorld_simps otherCellOf_def)
  have h2: "getConnectedCellAndMembraneDistance exampleTools (pairWorld 1) 2 (1, 0, 0) =
     Inr (updateLengthDirection exampleTools 7 (pairWorld 1), [3], 1 / 2)"
    by (rule gcc_pairWorld_1)
  have h3: "candidates exampleTools (pairWorld 1) 2 (1, 0, 0) = [(3, 1 / 2)]"
    using candidates_pairWorld[of 1] by simp
  from gcc_closest_candidates[of "pairWorld 1" 2 exampleTools "(1, 0, 0)"
      "updateLengthDirection exampleTools 7 (pairWorld 1)" "[3]" "1 / 2"] h1 h2 h3
  show ?thesis by (simp add: pairWorld_simps)
qed

text \<open>
  Two cells of radius 1 joined by a connection of length 10: along the axis the other cell is
  a candidate, the only one, at distance 5, and the query returns no cell and the distance 1.
\<close>

theorem gcc_drops_closest_candidate:
  "candidates exampleTools (pairWorld 10) 2 (1, 0, 0) = [(3, 5)] \<and>
   (case getConnectedCellAndMembraneDistance exampleTools (pairWorld 10) 2 (1, 0, 0) of
      Inl e \<Rightarrow> False
    | Inr r \<Rightarrow> fst (snd r) = [] \<and> snd (snd r) = 1)"
  using candidates_pairWorld[of 10] by (simp add: gcc_pairWorld_10)

theorem gcc_within_correctedRadius_witness:
  "getConnectedCellAndMembraneDistance exampleTools (pairWorld 10) 2 (1, 0, 0) =
     Inr (updateLengthDirection exampleTools 7 (pairWorld 10), [], 1) \<and>
   candidates exampleTools (pairWorld 10) 2 (1, 0, 0) = [(3, 5)] \<and>
   correctedRadius (mem (pairWorld 10) 2) < 5 \<and>
   (1 :: real) \<le> correctedRadius (mem (pairWorld 10) 2) \<and> (3 :: cell) \<notin> set []"
proof -
  have h1: "getConnectedCellAndMembraneDistance exampleTools (pairWorld 10) 2 (1, 0, 0) =
     Inr (updateLengthDirection exampleTools 7 (pairWorld 10), [], 1)"
    by (rule gcc_pairWorld_10)
  have h2: "\<forall>l. (3, l) \<in> set (candidates exampleTools (pairWorld 10) 2 (1, 0, 0)) \<longrightarrow>
        correctedRadius (mem (pairWorld 10) 2) < l \<and>
        (\<forall>x. x \<le> correctedRadius (mem (pairWorld 10) 2) \<longrightarrow> \<not> fuzzyEqual exampleTools l x)"
    using candidates_pairWorld[of 10] by (auto simp: pairWorld_simps exampleTools_def)
  have h3: "candidates exampleTools (pairWorld 10) 2 (1, 0, 0) = [(3, 5)]"
    using candidates_pairWorld[of 10] by simp
  from gcc_within_correctedRadius[OF h1] h2 h1 h3 show ?thesis
    by (simp add: pairWorld_simps)
qed

lemma vdiv_zero: "vdiv v 0 = Inl DivisionByZero"
  by (cases v) simp

lemma testPair_coincident:
  assumes "sqDistance T w (make_ordered_cell_pair a b) = 0"
    and "\<not> areConnected w (fst (make_ordered_cell_pair a b)) (snd (make_ordered_cell_pair a b))"
    and "make_ordered_cell_pair a b \<notin> set nc"
    and "fst (make_ordered_cell_pair a b) \<noteq> snd (make_ordered_cell_pair a b)"
  shows "testPair T (a, b) (w, nc) = Inl DivisionByZero"
  using assms by (simp add: testPair_def preciseTest_def Let_def sqMaxLength_def vdiv_zero)

lemma isolatedWorld_simps:
  "radius (mem (isolatedWorld r) c) = r"
  "correctedRadius (mem (isolatedWorld r) c) = r"
  "position (cells (isolatedWorld r) c) = (0, 0, 0)"
  "connectedCells (cells (isolatedWorld r) c) = []"
  "cellConnections (mem (isolatedWorld r) c) = []"
  "container (isolatedWorld r) = []"
  by (simp_all add: isolatedWorld_def emptyWorld_def cellAt_def sphere_def mem_def)

lemma coincident_cells:
  "sqDistance exampleTools (isolatedWorld 1) (make_ordered_cell_pair 2 3) = 0 \<and>
    \<not> areConnected (isolatedWorld 1) (fst (make_ordered_cell_pair 2 3)) (snd (make_ordered_cell_pair 2 3)) \<and>
    make_ordered_cell_pair 2 3 \<notin> set [] \<and>
    fst (make_ordered_cell_pair 2 3) \<noteq> snd (make_ordered_cell_pair 2 3)"
  by (simp add: sqDistance_def make_ordered_cell_pair_def isolatedWorld_simps areConnected_def
      exampleTools_def roundDecimal_values sqlength_def)

text \<open>
  C8 at a cell of radius 0 and at two cells in the same place: \<open>computePressure\<close> divides
  the total force by a surface of zero, and the pair test of \<open>checkForCellCellConnections\<close>
  divides the difference of the two positions by a distance of zero.  Neither division is
  guarded, whereas \<open>checkForCellModelCollisions\<close> tests the length of a vector before it
  normalises it (\<open>updateExisting\<close>).
\<close>

theorem division_by_zero_reached:
  "computePressure exampleTools 2 (isolatedWorld 0) = Inl DivisionByZero \<and>
   testPair exampleTools (2, 3) (isolatedWorld 1, []) = Inl DivisionByZero"
proof
  show "computePressure exampleTools 2 (isolatedWorld 0) = Inl DivisionByZero"
    by (simp add: computePressure_zero_radius isolatedWorld_simps)
  from coincident_cells show "testPair exampleTools (2, 3) (isolatedWorld 1, []) = Inl DivisionByZero"
    by (intro testPair_coincident) simp_all
qed

lemma compensateVolumeLoss_never_returns: "compensateVolumeLoss T me w \<noteq> Inr r"
  by (simp add: compensateVolumeLoss_def split: sum.splits)

lemma compensateVolumeLossBody_no_connections:
  "cellConnections (mem w me) = [] \<Longrightarrow>
   compensateVolumeLossBody T me w =
     Inr (updMembrane me
            (\<lambda>m. m\<lparr>correctedRadius :=
                     roundN T (cbrt T ((getVolume (mem w me) + 1.3 * 0) / ((4 / 3) * pi)))\<rparr>)
            w)"
  by (simp add: compensateVolumeLossBody_def)

text \<open>
  C5 at a cell of radius 1 without connections: the statements of
  \<open>compensateVolumeLoss\<close> run without a fault, and the call then reaches the end of the
  function, which has no \<open>return\<close> statement.
\<close>

theorem compensateVolumeLoss_missing_return:
  "compensateVolumeLoss exampleTools 0 (isolatedWorld 1) = Inl MissingReturn"
proof -
  have "cellConnections (mem (isolatedWorld 1) 0) = []"
    by (simp add: isolatedWorld_simps)
  from compensateVolumeLossBody_no_connections[OF this, of exampleTools] show ?thesis
    by (simp add: compensateVolumeLoss_def)
qed

section \<open>Removing a cell, and the sweep of cell-model connections\<close>

lemma CCCM_disconnect_models [simp]:
  "cellModelConnections (CCCM_disconnect c0 c1 p w) = cellModelConnections w"
  "modelConnections (mem (CCCM_disconnect c0 c1 p w) c) = modelConnections (mem w c)"
  by (simp_all add: CCCM_disconnect_def Let_def updCell_def updMembrane_def mem_def)

lemma CCCM_disconnectCells_models [simp]:
  "cellModelConnections (CCCM_disconnectCells c0 c1 w) = cellModelConnections w"
  "modelConnections (mem (CCCM_disconnectCells c0 c1 w) c) = modelConnections (mem w c)"
  by (simp_all add: CCCM_disconnectCells_def split: option.splits)

lemma fold_disconnectCells_models:
  "cellModelConnections (fold (\<lambda>c1. CCCM_disconnectCells c0 c1) cs w) = cellModelConnections w \<and>
   modelConnections (mem (fold (\<lambda>c1. CCCM_disconnectCells c0 c1) cs w) c) = modelConnections (mem w c)"
  by (induction cs arbitrary: w) simp_all

lemma disconnectAndDeleteAllConnections_models:
  "cellModelConnections (disconnectAndDeleteAllConnections c0 w) = cellModelConnections w \<and>
   modelConnections (mem (disconnectAndDeleteAllConnections c0 w) c) = modelConnections (mem w c)"
  by (simp add: disconnectAndDeleteAllConnections_def fold_disconnectCells_models)

lemma meshWorld_simps:
  "connectedCells (cells meshWorld 2) = [3]"
  "container meshWorld = [7]"
  "node0 (conns meshWorld 7) = 2"
  "node1 (conns meshWorld 7) = 3"
  "modelConnections (mem meshWorld 2) = [5]"
  "cellModelConnections meshWorld = [(9, [(2, [exampleModelConnection])])]"
  by (simp_all add: meshWorld_def pairWorld_def updMembrane_def addModelConnection_def mem_def
      cellAt_def sphere_def emptyConnection_def)

text \<open>
  C7 at a cell with a cell-model connection: \<open>disconnectAndDeleteAllConnections\<close> removes
  the cell-cell connection of cell 2, and the cell-model connection of cell 2 is still in the
  container of cell-model connections and in the membrane of the cell afterwards.
\<close>

theorem disconnectAndDeleteAllConnections_keeps_model_connections:
  "container (disconnectAndDeleteAllConnections 2 meshWorld) = [] \<and>
   connectedCells (cells (disconnectAndDeleteAllConnections 2 meshWorld) 2) = [] \<and>
   modelConnections (mem (disconnectAndDeleteAllConnections 2 meshWorld) 2) = [5] \<and>
   cellModelConnections (disconnectAndDeleteAllConnections 2 meshWorld) =
     [(9, [(2, [exampleModelConnection])])]"
proof -
  have d: "disconnectAndDeleteAllConnections 2 meshWorld = CCCM_disconnect 2 3 7 meshWorld"
    by (simp add: disconnectAndDeleteAllConnections_def CCCM_disconnectCells_def joins_def
        meshWorld_simps)
  have "container (CCCM_disconnect 2 3 7 meshWorld) = []"
    by (simp add: CCCM_disconnect_def Let_def updCell_def updMembrane_def meshWorld_simps)
  moreover have "connectedCells (cells (CCCM_disconnect 2 3 7 meshWorld) 2) = []"
    by (simp add: CCCM_disconnect_def Let_def updCell_def updMembrane_def meshWorld_simps)
  ultimately show ?thesis
    unfolding d by (simp add: meshWorld_simps)
qed

text \<open>
  C9 at a cell that has left the model it was connected to: after
  \<open>checkForCellModelCollisions\<close> the dirty connection is gone from the membrane and from
  the container, the entry of the cell is erased, and the entry of the model is still there,
  with an empty map.
\<close>

theorem checkForCellModelCollisions_keeps_empty_model_entry:
  "cellModelConnections (checkForCellModelCollisions exampleTools [2] meshWorld) = [(9, [])] \<and>
   modelConnections (mem (checkForCellModelCollisions exampleTools [2] meshWorld) 2) = []"
proof -
  have c: "collideCell exampleTools 2 w = w" for w
    by (simp add: collideCell_def exampleTools_def)
  have m: "modelConnections (membrane (cells meshWorld 2)) = [5]"
    using meshWorld_simps(5) by (simp add: mem_def)
  show ?thesis
    by (simp add: checkForCellModelCollisions_def Let_def c markAllDirty_def sweepDirty_def
        meshWorld_simps removeModelConnection_def updMembrane_def mem_def m
        exampleModelConnection_def)
qed

text \<open>What the sweep of cell-model connections does keep: the loop over the existing
  connections changes none into two and reports whether a similar one was found, no
  connection is dirty afterwards, and no entry of a cell is left with an empty vector.\<close>

lemma cleanEmptyEntries_subset:
  "(m, cs) \<in> set (cleanEmptyEntries x) \<Longrightarrow>
     \<exists>cs0. (m, cs0) \<in> set x \<and> cs = filter (\<lambda>c. snd c \<noteq> []) cs0"
  by (induction x) (auto split: if_splits)

lemma cleanEmptyEntries_cells:
  "(m, cs) \<in> set (cleanEmptyEntries x) \<Longrightarrow> (c, v) \<in> set cs \<Longrightarrow> v \<noteq> []"
  by (auto dest!: cleanEmptyEntries_subset)

lemma checkForCellModelCollisions_no_dirty:
  assumes "(m, cs) \<in> set (cellModelConnections (checkForCellModelCollisions T cells0 w))"
    and "(c, v) \<in> set cs" and "conn \<in> set v"
  shows "\<not> dirty conn"
proof -
  let ?w1 = "fold (collideCell T) cells0 (w\<lparr>cellModelConnections := markAllDirty (cellModelConnections w)\<rparr>)"
  from assms(1) have "(m, cs) \<in> set (cleanEmptyEntries (cellModelConnections (sweepDirty ?w1)))"
    by (simp add: checkForCellModelCollisions_def Let_def)
  from cleanEmptyEntries_subset[OF this] obtain cs0 where
    m: "(m, cs0) \<in> set (cellModelConnections (sweepDirty ?w1))"
    and cs: "cs = filter (\<lambda>c. snd c \<noteq> []) cs0" by blast
  from assms(2) cs have "(c, v) \<in> set cs0" by simp
  with m assms(3) show ?thesis
    by (auto simp: sweepDirty_def Let_def)
qed


lemma mergeLoop_length:
  "length (snd (mergeLoop T c cd proj face v)) = length v"
  by (induction v) (simp_all add: Let_def)

lemma mergeLoop_flag:
  "fst (mergeLoop T c cd proj face v) =
     (\<exists>oc \<in> set v. dot (normalized T (vminus (bounce_position oc) (prevposition c))) cd > 0.8)"
  by (induction v) (simp_all add: Let_def)

section \<open>Looking for new connections: no duplicates, and the threshold\<close>

lemma sameGraph_refl [simp]: "sameGraph w w"
  by (simp add: sameGraph_def)

lemma sameGraph_trans: "sameGraph w w1 \<Longrightarrow> sameGraph w1 w2 \<Longrightarrow> sameGraph w w2"
  by (simp add: sameGraph_def)

lemma sameGraph_uld [simp]: "sameGraph w (updateLengthDirection T q w)"
  by (simp add: sameGraph_def)

lemma sameGraph_fold_uld [simp]: "sameGraph w (fold (updateLengthDirection T) ps w)"
proof (induction ps arbitrary: w)
  case Nil
  show ?case by simp
next
  case (Cons p ps)
  have "sameGraph w (updateLengthDirection T p w)" by simp
  from sameGraph_trans[OF this Cons.IH] show ?case by simp
qed

lemma gcc_sameGraph:
  "getConnectedCellAndMembraneDistance T w me d = Inr (w', r) \<Longrightarrow> sameGraph w w'"
  using gcc_world[of T w me d w' "fst r" "snd r"] by simp

lemma sameGraph_endpoints: "sameGraph w w' \<Longrightarrow> endpoints w' = endpoints w"
  by (rule ext) (simp add: sameGraph_def endpoints_def)

lemma sameGraph_facts:
  assumes "sameGraph w w'"
  shows "mem w' c = mem w c" "areConnected w' a b = areConnected w a b"
    "sqDistance T w' op = sqDistance T w op" "sqMaxLength w' op = sqMaxLength w op"
    "connectedPairs w' = connectedPairs w"
    "graphInvariant w' = graphInvariant w"
  using assms sameGraph_endpoints[OF assms]
  by (simp_all add: sameGraph_def mem_def areConnected_def sqDistance_def sqMaxLength_def
      connectedPairs_def graphInvariant_def)

lemma preciseTest_sameGraph:
  "preciseTest T w op = Inr (w', b) \<Longrightarrow> sameGraph w w'"
  by (auto simp: preciseTest_def Let_def split: sum.splits
      dest!: gcc_sameGraph intro: sameGraph_trans)

lemma make_ordered_cell_pair_idem:
  "make_ordered_cell_pair (fst (make_ordered_cell_pair a b)) (snd (make_ordered_cell_pair a b)) =
     make_ordered_cell_pair a b"
  by (simp add: make_ordered_cell_pair_def)

lemma testPair_step:
  assumes "testPair T ab (w, nc) = Inr (w', nc')" and "goodProposals T w nc"
  shows "sameGraph w w' \<and> goodProposals T w nc'"
proof -
  let ?op = "make_ordered_cell_pair (fst ab) (snd ab)"
  consider (skip) "w' = w" "nc' = nc"
    | (test) b where "preciseTest T w ?op = Inr (w', b)" "nc' = (if b then nc @ [?op] else nc)"
      "sqDistance T w ?op \<le> sqMaxLength w ?op" "\<not> areConnected w (fst ?op) (snd ?op)"
      "?op \<notin> set nc" "fst ?op \<noteq> snd ?op"
    using assms(1) by (auto simp: testPair_def Let_def split: if_splits sum.splits)
  then show ?thesis
  proof cases
    case skip
    with assms(2) show ?thesis by simp
  next
    case test
    have "goodProposals T w nc'"
      using test assms(2) by (auto simp: goodProposals_def make_ordered_cell_pair_idem)
    with preciseTest_sameGraph[OF test(1)] show ?thesis by simp
  qed
qed

lemma goodProposals_sameGraph:
  "sameGraph w w' \<Longrightarrow> goodProposals T w' nc = goodProposals T w nc"
  by (simp add: goodProposals_def sameGraph_facts)

lemma testPair_loop:
  "foldE (testPair T) ps (w, nc) = Inr (w', nc') \<Longrightarrow> goodProposals T w nc \<Longrightarrow>
     sameGraph w w' \<and> goodProposals T w nc'"
proof (induction ps arbitrary: w nc)
  case Nil
  then show ?case by simp
next
  case (Cons ab ps)
  from Cons.prems(1) obtain w1 nc1 where s: "testPair T ab (w, nc) = Inr (w1, nc1)"
    and r: "foldE (testPair T) ps (w1, nc1) = Inr (w', nc')"
    by (auto split: sum.splits)
  from testPair_step[OF s Cons.prems(2)] have g1: "sameGraph w w1" and p1: "goodProposals T w nc1"
    by simp_all
  from p1 g1 have "goodProposals T w1 nc1" by (simp add: goodProposals_sameGraph)
  from Cons.IH[OF r this] have "sameGraph w1 w'" and "goodProposals T w1 nc'" by simp_all
  with g1 show ?case
    by (auto intro: sameGraph_trans simp: goodProposals_sameGraph)
qed

lemma fold_max_ge: "(x :: nat) \<in> set xs \<Longrightarrow> x \<le> fold max xs a"
proof (induction xs arbitrary: a)
  case Nil
  then show ?case by simp
next
  case (Cons y ys)
  have mono: "a \<le> fold max ys a" for a :: nat
  proof (induction ys arbitrary: a)
    case Nil
    show ?case by simp
  next
    case (Cons z zs)
    have "a \<le> max z a" by simp
    also have "\<dots> \<le> fold max zs (max z a)" by (rule Cons.IH)
    finally show ?case by simp
  qed
  show ?case
  proof (cases "x = y")
    case True
    have "y \<le> max y a" by simp
    also have "\<dots> \<le> fold max ys (max y a)" by (rule mono)
    finally show ?thesis using True by simp
  next
    case False
    with Cons.prems have "x \<in> set ys" by simp
    from Cons.IH[OF this] show ?thesis by simp
  qed
qed

lemma newConnPtr_fresh: "newConnPtr w \<notin> set (container w)"
proof
  assume "newConnPtr w \<in> set (container w)"
  from fold_max_ge[OF this, of 0] show False by (simp add: newConnPtr_def)
qed

lemma CCCM_createConnection_simps:
  "container (CCCM_createConnection c0 c1 s fl tors w) = container w @ [newConnPtr w]"
  "node0 (conns (CCCM_createConnection c0 c1 s fl tors w) (newConnPtr w)) = c0"
  "node1 (conns (CCCM_createConnection c0 c1 s fl tors w) (newConnPtr w)) = c1"
  "p \<noteq> newConnPtr w \<Longrightarrow> conns (CCCM_createConnection c0 c1 s fl tors w) p = conns w p"
  "position (cells (CCCM_createConnection c0 c1 s fl tors w) c) = position (cells w c)"
  "radius (mem (CCCM_createConnection c0 c1 s fl tors w) c) = radius (mem w c)"
  "correctedRadius (mem (CCCM_createConnection c0 c1 s fl tors w) c) = correctedRadius (mem w c)"
  "cellModelConnections (CCCM_createConnection c0 c1 s fl tors w) = cellModelConnections w"
  by (simp_all add: CCCM_createConnection_def Let_def updCell_def updMembrane_def mem_def)

lemma CCCM_createConnection_areConnected:
  "areConnected (CCCM_createConnection c0 c1 s fl tors w) a b =
     (areConnected w a b \<or> (a = c0 \<and> b = c1) \<or> (a = c1 \<and> b = c0))"
  by (auto simp: CCCM_createConnection_def Let_def updCell_def updMembrane_def areConnected_def)

lemma CCCM_createConnection_endpoints:
  "p \<in> set (container w) \<Longrightarrow>
     endpoints (CCCM_createConnection c0 c1 s fl tors w) p = endpoints w p"
  "endpoints (CCCM_createConnection c0 c1 s fl tors w) (newConnPtr w) =
     make_ordered_cell_pair c0 c1"
proof -
  assume "p \<in> set (container w)"
  with newConnPtr_fresh[of w] have "p \<noteq> newConnPtr w" by auto
  then show "endpoints (CCCM_createConnection c0 c1 s fl tors w) p = endpoints w p"
    by (simp add: endpoints_def CCCM_createConnection_simps)
next
  show "endpoints (CCCM_createConnection c0 c1 s fl tors w) (newConnPtr w) =
     make_ordered_cell_pair c0 c1"
    by (simp add: endpoints_def CCCM_createConnection_simps)
qed

lemma CCCM_createConnection_pairs:
  "connectedPairs (CCCM_createConnection c0 c1 s fl tors w) =
     connectedPairs w @ [make_ordered_cell_pair c0 c1]"
  by (simp add: connectedPairs_def CCCM_createConnection_simps CCCM_createConnection_endpoints)

lemma CCCM_createConnection_invariant:
  assumes "graphInvariant w" and "c0 \<noteq> c1"
    and "make_ordered_cell_pair c0 c1 \<notin> set (connectedPairs w)"
  shows "graphInvariant (CCCM_createConnection c0 c1 s fl tors w)"
proof -
  let ?w = "CCCM_createConnection c0 c1 s fl tors w"
  have d: "distinct (connectedPairs ?w)"
    using assms by (simp add: CCCM_createConnection_pairs graphInvariant_def)
  have old: "node0 (conns ?w p) \<noteq> node1 (conns ?w p) \<and>
         areConnected ?w (node0 (conns ?w p)) (node1 (conns ?w p)) \<and>
         areConnected ?w (node1 (conns ?w p)) (node0 (conns ?w p))"
    if "p \<in> set (container w)" for p
  proof -
    from that newConnPtr_fresh[of w] have "p \<noteq> newConnPtr w" by auto
    then have "conns ?w p = conns w p" by (simp add: CCCM_createConnection_simps)
    with assms(1) that show ?thesis
      by (simp add: graphInvariant_def CCCM_createConnection_areConnected)
  qed
  have new: "node0 (conns ?w (newConnPtr w)) \<noteq> node1 (conns ?w (newConnPtr w)) \<and>
         areConnected ?w (node0 (conns ?w (newConnPtr w))) (node1 (conns ?w (newConnPtr w))) \<and>
         areConnected ?w (node1 (conns ?w (newConnPtr w))) (node0 (conns ?w (newConnPtr w)))"
    using assms(2) by (simp add: CCCM_createConnection_simps CCCM_createConnection_areConnected)
  show ?thesis
    unfolding graphInvariant_def
    using d old new by (auto simp: CCCM_createConnection_simps(1))
qed

lemma createConnection_Inr:
  "createConnection T c0 c1 w = Inr w' \<Longrightarrow>
     \<exists>s fl tors. w' = CCCM_createConnection c0 c1 s fl tors w"
  by (simp add: createConnection_def Let_def split: sum.splits) blast

lemma create_loop_pairs:
  "foldE (\<lambda>nc. createConnection T (fst nc) (snd nc)) ncs w = Inr w' \<Longrightarrow>
     connectedPairs w' =
       connectedPairs w @ map (\<lambda>op. make_ordered_cell_pair (fst op) (snd op)) ncs"
proof (induction ncs arbitrary: w)
  case Nil
  then show ?case by simp
next
  case (Cons op ncs)
  from Cons.prems obtain w1 where s: "createConnection T (fst op) (snd op) w = Inr w1"
    and r: "foldE (\<lambda>nc. createConnection T (fst nc) (snd nc)) ncs w1 = Inr w'"
    by (auto split: sum.splits)
  from createConnection_Inr[OF s] have
    "connectedPairs w1 = connectedPairs w @ [make_ordered_cell_pair (fst op) (snd op)]"
    by (auto simp: CCCM_createConnection_pairs)
  with Cons.IH[OF r] show ?case by simp
qed

lemma create_loop_invariant:
  "foldE (\<lambda>nc. createConnection T (fst nc) (snd nc)) ncs w = Inr w' \<Longrightarrow>
   graphInvariant w \<Longrightarrow> distinct ncs \<Longrightarrow>
   \<forall>op \<in> set ncs. make_ordered_cell_pair (fst op) (snd op) = op \<and> fst op \<noteq> snd op \<and>
       op \<notin> set (connectedPairs w) \<Longrightarrow>
   graphInvariant w'"
proof (induction ncs arbitrary: w)
  case Nil
  then show ?case by simp
next
  case (Cons op ncs)
  from Cons.prems(1) obtain w1 where s: "createConnection T (fst op) (snd op) w = Inr w1"
    and r: "foldE (\<lambda>nc. createConnection T (fst nc) (snd nc)) ncs w1 = Inr w'"
    by (auto split: sum.splits)
  from createConnection_Inr[OF s] obtain sp fl tors where
    w1: "w1 = CCCM_createConnection (fst op) (snd op) sp fl tors w" by blast
  have op: "make_ordered_cell_pair (fst op) (snd op) = op" "fst op \<noteq> snd op"
    "op \<notin> set (connectedPairs w)"
    using Cons.prems(4) by simp_all
  have i1: "graphInvariant w1"
    unfolding w1 using Cons.prems(2) op by (intro CCCM_createConnection_invariant) simp_all
  have p1: "connectedPairs w1 = connectedPairs w @ [op]"
    unfolding w1 by (simp add: CCCM_createConnection_pairs op(1))
  have "\<forall>op' \<in> set ncs. make_ordered_cell_pair (fst op') (snd op') = op' \<and> fst op' \<noteq> snd op' \<and>
       op' \<notin> set (connectedPairs w1)"
    using Cons.prems(3,4) by (auto simp: p1)
  from Cons.IH[OF r i1 _ this] Cons.prems(3) show ?case by simp
qed

lemma make_ordered_cell_pair_cases:
  "make_ordered_cell_pair a b = (a, b) \<or> make_ordered_cell_pair a b = (b, a)"
  by (simp add: make_ordered_cell_pair_def)

lemma not_connected_not_in_pairs:
  assumes "graphInvariant w" and "\<not> areConnected w (fst op) (snd op)"
  shows "op \<notin> set (connectedPairs w)"
proof
  assume "op \<in> set (connectedPairs w)"
  then obtain p where p: "p \<in> set (container w)" and e: "endpoints w p = op"
    by (auto simp: connectedPairs_def)
  from assms(1) p have
    "areConnected w (node0 (conns w p)) (node1 (conns w p))"
    "areConnected w (node1 (conns w p)) (node0 (conns w p))"
    by (simp_all add: graphInvariant_def)
  with e make_ordered_cell_pair_cases[of "node0 (conns w p)" "node1 (conns w p)"]
  have "areConnected w (fst op) (snd op)"
    by (auto simp: endpoints_def)
  with assms(2) show False by simp
qed

lemma checkFor_pairs:
  assumes "checkForCellCellConnections T cs w = Inr w'"
  shows "\<exists>nc. goodProposals T w nc \<and> connectedPairs w' = connectedPairs w @ nc \<and>
              (graphInvariant w \<longrightarrow> graphInvariant w')"
proof -
  let ?w1 = "fold (updateLengthDirection T) (container w) w"
  from assms obtain w2 nc where
    l: "foldE (testPair T) (gridPairs (getThreadSafeGrid T cs)) (?w1, []) = Inr (w2, nc)"
    and c: "foldE (\<lambda>nc. createConnection T (fst nc) (snd nc)) nc w2 = Inr w'"
    by (auto simp: checkForCellCellConnections_def Let_def split: sum.splits)
  have g1: "sameGraph w ?w1" by simp
  have "goodProposals T ?w1 []" by (simp add: goodProposals_def)
  from testPair_loop[OF l this] have g2: "sameGraph ?w1 w2" and gp: "goodProposals T ?w1 nc"
    by simp_all
  from g1 g2 have g: "sameGraph w w2" by (rule sameGraph_trans)
  from gp g1 have good: "goodProposals T w nc" by (simp add: goodProposals_sameGraph)
  have canon: "map (\<lambda>op. make_ordered_cell_pair (fst op) (snd op)) nc = nc"
    using good by (simp add: goodProposals_def map_idI)
  have pairs: "connectedPairs w' = connectedPairs w @ nc"
    using create_loop_pairs[OF c] canon by (simp add: sameGraph_facts[OF g])
  have "graphInvariant w'" if i: "graphInvariant w"
  proof -
    from i have i2: "graphInvariant w2" by (simp add: sameGraph_facts[OF g])
    have "\<forall>op \<in> set nc. make_ordered_cell_pair (fst op) (snd op) = op \<and> fst op \<noteq> snd op \<and>
       op \<notin> set (connectedPairs w2)"
      using good not_connected_not_in_pairs[OF i]
      by (auto simp: goodProposals_def sameGraph_facts[OF g])
    from create_loop_invariant[OF c i2 _ this] good show ?thesis
      by (simp add: goodProposals_def)
  qed
  with good pairs show ?thesis by blast
qed

lemma sqMaxLength_pair:
  "sqMaxLength w (make_ordered_cell_pair a b) =
     (correctedRadius (mem w a) + correctedRadius (mem w b)) ^ 2"
  by (simp add: sqMaxLength_def make_ordered_cell_pair_def add.commute)

lemma testPair_eligible:
  assumes "sqDistance T v (make_ordered_cell_pair a b) \<le> sqMaxLength v (make_ordered_cell_pair a b)"
    and "\<not> areConnected v (fst (make_ordered_cell_pair a b)) (snd (make_ordered_cell_pair a b))"
    and "make_ordered_cell_pair a b \<notin> set nc"
    and "fst (make_ordered_cell_pair a b) \<noteq> snd (make_ordered_cell_pair a b)"
  shows "testPair T (a, b) (v, nc) =
           (case preciseTest T v (make_ordered_cell_pair a b) of
              Inl e \<Rightarrow> Inl e
            | Inr r \<Rightarrow> Inr (fst r, if snd r then nc @ [make_ordered_cell_pair a b] else nc))"
  using assms by (auto simp: testPair_def Let_def split: sum.splits)

lemma checkFor_far_pair:
  assumes "checkForCellCellConnections T cs w = Inr w'"
    and "sqDistance T w op > sqMaxLength w op"
    and "op \<notin> set (connectedPairs w)"
  shows "op \<notin> set (connectedPairs w')"
proof -
  from checkFor_pairs[OF assms(1)] obtain nc where
    g: "goodProposals T w nc" and p: "connectedPairs w' = connectedPairs w @ nc" by blast
  from g assms(2) have "op \<notin> set nc" by (auto simp: goodProposals_def)
  with assms(3) p show ?thesis by simp
qed

text \<open>
  C2.  Where no two connections of the container join the same unordered pair of cells, no
  connection joins a cell to itself and the neighbour sets hold both ends of every
  connection, a run of \<open>checkForCellCellConnections\<close> that returns leaves all of this
  true: the new connections are appended, they join pairs that were not connected, no pair
  twice and no cell to itself.  A second run from the resulting state keeps it true again,
  so it creates no second connection for a connected pair.
\<close>

theorem checkForCellCellConnections_no_duplicate:
  assumes "graphInvariant w" and "checkForCellCellConnections T cs w = Inr w'"
  shows "graphInvariant w' \<and>
     (\<exists>nc. connectedPairs w' = connectedPairs w @ nc \<and> distinct nc \<and>
           (\<forall>op \<in> set nc. op \<notin> set (connectedPairs w) \<and> fst op \<noteq> snd op)) \<and>
     (\<forall>w''. checkForCellCellConnections T cs w' = Inr w'' \<longrightarrow> graphInvariant w'')"
proof -
  from checkFor_pairs[OF assms(2)] assms(1) obtain nc where
    g: "goodProposals T w nc" and p: "connectedPairs w' = connectedPairs w @ nc"
    and i: "graphInvariant w'" by blast
  have "\<forall>op \<in> set nc. op \<notin> set (connectedPairs w) \<and> fst op \<noteq> snd op"
    using g not_connected_not_in_pairs[OF assms(1)] by (auto simp: goodProposals_def)
  moreover have "distinct nc" using g by (simp add: goodProposals_def)
  moreover have "graphInvariant w''" if "checkForCellCellConnections T cs w' = Inr w''" for w''
    using checkFor_pairs[OF that] i by blast
  ultimately show ?thesis using i p by blast
qed

lemma sqDistance_pair:
  "sqDistance T w (make_ordered_cell_pair a b) =
     sqlength (roundNv T (vminus (position (cells w (fst (make_ordered_cell_pair a b))))
                                 (position (cells w (snd (make_ordered_cell_pair a b))))))"
  by (simp add: sqDistance_def)

text \<open>
  C4, as amended.  The cheap test compares the squared length of the rounded difference of
  the two positions with the square of the sum of the corrected radii.  A pair of cells that
  is not connected and for which the first exceeds the second is not connected after
  \<open>checkForCellCellConnections\<close>; this is the squared distance of the centres itself
  whenever the rounding leaves the difference of the positions as it is; and two cells of
  corrected radius 1 at a rounded distance of 2.001 are never connected.  A pair at exactly
  that square passes the cheap test and, when it is neither connected nor proposed, is
  decided by the precise test; two cells of corrected radius 1 at a rounded distance of 2 are
  at exactly that square.
\<close>

theorem checkForCellCellConnections_threshold:
  "(checkForCellCellConnections T cs w = Inr w' \<longrightarrow>
      (\<forall>a b. (correctedRadius (mem w a) + correctedRadius (mem w b)) ^ 2
               < sqlength (roundNv T (vminus (position (cells w (fst (make_ordered_cell_pair a b))))
                                            (position (cells w (snd (make_ordered_cell_pair a b)))))) \<and>
             make_ordered_cell_pair a b \<notin> set (connectedPairs w) \<longrightarrow>
             make_ordered_cell_pair a b \<notin> set (connectedPairs w')) \<and>
      (\<forall>a b. roundNv T (vminus (position (cells w (fst (make_ordered_cell_pair a b))))
                               (position (cells w (snd (make_ordered_cell_pair a b)))))
               = vminus (position (cells w (fst (make_ordered_cell_pair a b))))
                        (position (cells w (snd (make_ordered_cell_pair a b)))) \<and>
             (correctedRadius (mem w a) + correctedRadius (mem w b)) ^ 2
               < sqlength (vminus (position (cells w (fst (make_ordered_cell_pair a b))))
                                  (position (cells w (snd (make_ordered_cell_pair a b))))) \<and>
             make_ordered_cell_pair a b \<notin> set (connectedPairs w) \<longrightarrow>
             make_ordered_cell_pair a b \<notin> set (connectedPairs w')) \<and>
      (\<forall>a b. correctedRadius (mem w a) = 1 \<and> correctedRadius (mem w b) = 1 \<and>
             sqlength (roundNv T (vminus (position (cells w (fst (make_ordered_cell_pair a b))))
                                          (position (cells w (snd (make_ordered_cell_pair a b))))))
               = (2001 / 1000) ^ 2 \<and>
             make_ordered_cell_pair a b \<notin> set (connectedPairs w) \<longrightarrow>
             make_ordered_cell_pair a b \<notin> set (connectedPairs w'))) \<and>
   (sqlength (roundNv T (vminus (position (cells v (fst (make_ordered_cell_pair a b))))
                                (position (cells v (snd (make_ordered_cell_pair a b))))))
      = (correctedRadius (mem v a) + correctedRadius (mem v b)) ^ 2 \<and>
    \<not> areConnected v (fst (make_ordered_cell_pair a b)) (snd (make_ordered_cell_pair a b)) \<and>
    make_ordered_cell_pair a b \<notin> set nc \<and>
    fst (make_ordered_cell_pair a b) \<noteq> snd (make_ordered_cell_pair a b) \<longrightarrow>
    testPair T (a, b) (v, nc) =
      (case preciseTest T v (make_ordered_cell_pair a b) of
         Inl e \<Rightarrow> Inl e
       | Inr r \<Rightarrow> Inr (fst r, if snd r then nc @ [make_ordered_cell_pair a b] else nc))) \<and>
   (correctedRadius (mem v a) = 1 \<and> correctedRadius (mem v b) = 1 \<and>
    sqlength (roundNv T (vminus (position (cells v (fst (make_ordered_cell_pair a b))))
                                (position (cells v (snd (make_ordered_cell_pair a b))))))
      = 2 ^ 2 \<longrightarrow>
    sqlength (roundNv T (vminus (position (cells v (fst (make_ordered_cell_pair a b))))
                                (position (cells v (snd (make_ordered_cell_pair a b))))))
      = (correctedRadius (mem v a) + correctedRadius (mem v b)) ^ 2)"
proof (intro conjI impI allI)
  fix c d
  assume "checkForCellCellConnections T cs w = Inr w'"
    and "(correctedRadius (mem w c) + correctedRadius (mem w d)) ^ 2
               < sqlength (roundNv T (vminus (position (cells w (fst (make_ordered_cell_pair c d))))
                                            (position (cells w (snd (make_ordered_cell_pair c d)))))) \<and>
         make_ordered_cell_pair c d \<notin> set (connectedPairs w)"
  then show "make_ordered_cell_pair c d \<notin> set (connectedPairs w')"
    using checkFor_far_pair[of T cs w w' "make_ordered_cell_pair c d"]
    by (simp add: sqMaxLength_pair sqDistance_pair)
next
  fix c d
  assume "checkForCellCellConnections T cs w = Inr w'"
    and "roundNv T (vminus (position (cells w (fst (make_ordered_cell_pair c d))))
                               (position (cells w (snd (make_ordered_cell_pair c d)))))
               = vminus (position (cells w (fst (make_ordered_cell_pair c d))))
                        (position (cells w (snd (make_ordered_cell_pair c d)))) \<and>
             (correctedRadius (mem w c) + correctedRadius (mem w d)) ^ 2
               < sqlength (vminus (position (cells w (fst (make_ordered_cell_pair c d))))
                                  (position (cells w (snd (make_ordered_cell_pair c d))))) \<and>
             make_ordered_cell_pair c d \<notin> set (connectedPairs w)"
  then show "make_ordered_cell_pair c d \<notin> set (connectedPairs w')"
    using checkFor_far_pair[of T cs w w' "make_ordered_cell_pair c d"]
    by (simp add: sqMaxLength_pair sqDistance_pair)
next
  fix c d
  assume "checkForCellCellConnections T cs w = Inr w'"
    and "correctedRadius (mem w c) = 1 \<and> correctedRadius (mem w d) = 1 \<and>
             sqlength (roundNv T (vminus (position (cells w (fst (make_ordered_cell_pair c d))))
                                          (position (cells w (snd (make_ordered_cell_pair c d))))))
               = (2001 / 1000) ^ 2 \<and>
             make_ordered_cell_pair c d \<notin> set (connectedPairs w)"
  then show "make_ordered_cell_pair c d \<notin> set (connectedPairs w')"
    using checkFor_far_pair[of T cs w w' "make_ordered_cell_pair c d"]
    by (simp add: sqMaxLength_pair sqDistance_pair power2_eq_square)
next
  assume "sqlength (roundNv T (vminus (position (cells v (fst (make_ordered_cell_pair a b))))
                                (position (cells v (snd (make_ordered_cell_pair a b))))))
      = (correctedRadius (mem v a) + correctedRadius (mem v b)) ^ 2 \<and>
    \<not> areConnected v (fst (make_ordered_cell_pair a b)) (snd (make_ordered_cell_pair a b)) \<and>
    make_ordered_cell_pair a b \<notin> set nc \<and>
    fst (make_ordered_cell_pair a b) \<noteq> snd (make_ordered_cell_pair a b)"
  then show "testPair T (a, b) (v, nc) =
      (case preciseTest T v (make_ordered_cell_pair a b) of
         Inl e \<Rightarrow> Inl e
       | Inr r \<Rightarrow> Inr (fst r, if snd r then nc @ [make_ordered_cell_pair a b] else nc))"
    by (intro testPair_eligible) (simp_all add: sqMaxLength_pair sqDistance_pair)
next
  assume "correctedRadius (mem v a) = 1 \<and> correctedRadius (mem v b) = 1 \<and>
    sqlength (roundNv T (vminus (position (cells v (fst (make_ordered_cell_pair a b))))
                                (position (cells v (snd (make_ordered_cell_pair a b))))))
      = 2 ^ 2"
  then show "sqlength (roundNv T (vminus (position (cells v (fst (make_ordered_cell_pair a b))))
                                (position (cells v (snd (make_ordered_cell_pair a b))))))
      = (correctedRadius (mem v a) + correctedRadius (mem v b)) ^ 2"
    by simp
qed

lemma roundDecimal_ge_one:
  assumes "1 \<le> x"
  shows "1 \<le> roundDecimal N x"
proof -
  have "(10 :: real) ^ N \<le> x * 10 ^ N" using assms by simp
  then have "round ((10 :: real) ^ N) \<le> round (x * 10 ^ N)" by (rule round_mono)
  moreover have "round ((10 :: real) ^ N) = 10 ^ N"
    using round_of_int[of "10 ^ N", where ?'a = real] by simp
  ultimately have "(10 :: int) ^ N \<le> round (x * 10 ^ N)" by simp
  then have "(of_int ((10 :: int) ^ N) :: real) \<le> of_int (round (x * 10 ^ N))"
    by (simp only: of_int_le_iff)
  then have "(10 :: real) ^ N \<le> of_int (round (x * 10 ^ N))" by simp
  then show ?thesis by (simp add: roundDecimal_def)
qed

lemma roundDecimal_more_values:
  "roundDecimal 6 (- (2001 / 1000)) = - (2001 / 1000)"
  "roundDecimal 6 (- 2) = - 2"
  unfolding roundDecimal_def round_def by simp_all

lemma createConnection_total:
  "roundN T (getVolume (mem w c0) + getVolume (mem w c1)) \<noteq> 0 \<Longrightarrow>
     \<exists>s fl tors. createConnection T c0 c1 w = Inr (CCCM_createConnection c0 c1 s fl tors w)"
  by (simp add: createConnection_def Let_def fdiv_def del: split_paired_Ex) blast

lemma gcc_no_connections:
  "cellConnections (mem w me) = [] \<Longrightarrow>
     getConnectedCellAndMembraneDistance T w me d = Inr (w, [], correctedRadius (mem w me))"
  by (simp add: getConnectedCellAndMembraneDistance_def)

lemma apartWorld_simps:
  "position (cells (apartWorld x) 2) = (0, 0, 0)"
  "position (cells (apartWorld x) 3) = (x, 0, 0)"
  "correctedRadius (mem (apartWorld x) c) = 1"
  "radius (mem (apartWorld x) c) = 1"
  "cellConnections (mem (apartWorld x) c) = []"
  "connectedCells (cells (apartWorld x) c) = []"
  "container (apartWorld x) = []"
  by (simp_all add: apartWorld_def emptyWorld_def cellAt_def sphere_def mem_def)

lemma apartWorld_graph:
  "connectedPairs (apartWorld x) = []" "graphInvariant (apartWorld x)"
  "\<not> areConnected (apartWorld x) a b"
  by (simp_all add: connectedPairs_def graphInvariant_def apartWorld_simps areConnected_def)

lemma pair_2_3: "make_ordered_cell_pair 2 3 = (2, 3)"
  by (simp add: make_ordered_cell_pair_def)

lemma apartWorld_sqDistance:
  "sqDistance exampleTools (apartWorld x) (2, 3) = (roundDecimal 6 (- x)) ^ 2"
  by (simp add: sqDistance_def apartWorld_simps exampleTools_def roundDecimal_values sqlength_def
      power2_eq_square)

lemma apartWorld_preciseTest:
  assumes "roundDecimal 6 (- x) = - y" and "0 < y"
  shows "preciseTest exampleTools (apartWorld x) (2, 3) = Inr (apartWorld x, y < 2)"
proof -
  have d: "sqrt (sqDistance exampleTools (apartWorld x) (2, 3)) = y"
    using assms by (simp add: apartWorld_sqDistance)
  have r: "roundN exampleTools 1 = 1" by (simp add: exampleTools_def roundDecimal_values)
  have ab: "roundNv exampleTools (vminus (0, 0, 0) (x, 0, 0)) = (- y, 0, 0)"
    using assms(1) by (simp add: exampleTools_def roundDecimal_values)
  show ?thesis
    using assms(2)
    by (simp add: preciseTest_def Let_def d ab apartWorld_simps gcc_no_connections r)
qed

lemma apartWorld_testPair_far:
  "testPair exampleTools (2, 3) (apartWorld (2001 / 1000), []) = Inr (apartWorld (2001 / 1000), [])"
  by (simp add: testPair_def Let_def pair_2_3 apartWorld_sqDistance roundDecimal_more_values
      sqMaxLength_def apartWorld_simps power2_eq_square)

lemma apartWorld_testPair_touching:
  "testPair exampleTools (2, 3) (apartWorld 2, []) = Inr (apartWorld 2, [])"
  using apartWorld_preciseTest[of 2 2]
  by (simp add: testPair_def Let_def pair_2_3 apartWorld_sqDistance roundDecimal_more_values
      sqMaxLength_def apartWorld_simps apartWorld_graph)

lemma apartWorld_testPair_near:
  "testPair exampleTools (2, 3) (apartWorld 1, []) = Inr (apartWorld 1, [(2, 3)])"
  using apartWorld_preciseTest[of 1 1]
  by (simp add: testPair_def Let_def pair_2_3 apartWorld_sqDistance roundDecimal_values
      sqMaxLength_def apartWorld_simps apartWorld_graph)

lemma exampleTools_grid: "gridPairs (getThreadSafeGrid exampleTools [2, 3]) = [(2, 3)]"
  by (simp add: gridPairs_def exampleTools_def)

lemma apartWorld_check_far:
  "checkForCellCellConnections exampleTools [2, 3] (apartWorld (2001 / 1000)) =
     Inr (apartWorld (2001 / 1000))"
  by (simp add: checkForCellCellConnections_def Let_def exampleTools_grid apartWorld_simps
      apartWorld_testPair_far)

lemma apartWorld_check_near:
  "\<exists>s fl tors. checkForCellCellConnections exampleTools [2, 3] (apartWorld 1) =
     Inr (CCCM_createConnection 2 3 s fl tors (apartWorld 1))"
proof -
  have "1 \<le> getVolume (mem (apartWorld 1) 2) + getVolume (mem (apartWorld 1) 3)"
    using pi_ge_two by (simp add: getVolume_def apartWorld_simps)
  then have "roundN exampleTools (getVolume (mem (apartWorld 1) 2) + getVolume (mem (apartWorld 1) 3)) \<noteq> 0"
    using roundDecimal_ge_one[of _ 6] by (fastforce simp: exampleTools_def)
  from createConnection_total[OF this] obtain s fl tors where
    "createConnection exampleTools 2 3 (apartWorld 1) =
       Inr (CCCM_createConnection 2 3 s fl tors (apartWorld 1))" by blast
  then have "checkForCellCellConnections exampleTools [2, 3] (apartWorld 1) =
     Inr (CCCM_createConnection 2 3 s fl tors (apartWorld 1))"
    by (simp add: checkForCellCellConnections_def Let_def exampleTools_grid apartWorld_simps
        apartWorld_testPair_near)
  then show ?thesis by blast
qed

theorem checkForCellCellConnections_no_duplicate_witness:
  "connectedPairs (apartWorld 1) = [] \<and>
   (\<exists>w'. checkForCellCellConnections exampleTools [2, 3] (apartWorld 1) = Inr w' \<and>
         connectedPairs w' = [(2, 3)] \<and> distinct (connectedPairs w'))"
proof -
  from apartWorld_check_near obtain s fl tors where
    c: "checkForCellCellConnections exampleTools [2, 3] (apartWorld 1) =
          Inr (CCCM_createConnection 2 3 s fl tors (apartWorld 1))" by blast
  have i: "graphInvariant (apartWorld 1)" by (rule apartWorld_graph)
  from checkForCellCellConnections_no_duplicate[OF i c]
  have "graphInvariant (CCCM_createConnection 2 3 s fl tors (apartWorld 1))" by simp
  then have "distinct (connectedPairs (CCCM_createConnection 2 3 s fl tors (apartWorld 1)))"
    by (simp add: graphInvariant_def)
  moreover have "connectedPairs (CCCM_createConnection 2 3 s fl tors (apartWorld 1)) = [(2, 3)]"
    by (simp add: CCCM_createConnection_pairs apartWorld_graph pair_2_3)
  ultimately show ?thesis using c by (auto simp: apartWorld_graph)
qed

lemma roundDecimal_tight_values:
  "roundDecimal 6 (- (20000013 / 10000000)) = - (2000001 / 1000000)"
  "roundDecimal 6 (5000003 / 5000000) = 1000001 / 1000000"
  unfolding roundDecimal_def round_def by simp_all

lemma spacedWorld_simps:
  "position (cells (spacedWorld r x) 2) = (0, 0, 0)"
  "position (cells (spacedWorld r x) 3) = (x, 0, 0)"
  "correctedRadius (mem (spacedWorld r x) c) = r"
  "radius (mem (spacedWorld r x) c) = r"
  "cellConnections (mem (spacedWorld r x) c) = []"
  "connectedCells (cells (spacedWorld r x) c) = []"
  "container (spacedWorld r x) = []"
  by (simp_all add: spacedWorld_def emptyWorld_def cellAt_def sphere_def mem_def)

lemma spacedWorld_graph:
  "connectedPairs (spacedWorld r x) = []" "\<not> areConnected (spacedWorld r x) a b"
  by (simp_all add: connectedPairs_def spacedWorld_simps areConnected_def)

lemma spacedWorld_sqDistance:
  "sqDistance exampleTools (spacedWorld r x) (2, 3) = (roundDecimal 6 (- x)) ^ 2"
  by (simp add: sqDistance_def spacedWorld_simps exampleTools_def roundDecimal_values sqlength_def
      power2_eq_square)

lemma spacedWorld_preciseTest:
  assumes "roundDecimal 6 (- x) = - y" and "0 < y"
  shows "preciseTest exampleTools (spacedWorld r x) (2, 3) =
           Inr (spacedWorld r x, y < roundDecimal 6 r + roundDecimal 6 r)"
proof -
  have d: "sqrt (sqDistance exampleTools (spacedWorld r x) (2, 3)) = y"
    using assms by (simp add: spacedWorld_sqDistance)
  have rn: "roundN exampleTools r = roundDecimal 6 r" by (simp add: exampleTools_def)
  have ab: "roundNv exampleTools (vminus (0, 0, 0) (x, 0, 0)) = (- y, 0, 0)"
    using assms(1) by (simp add: exampleTools_def roundDecimal_values)
  show ?thesis
    using assms(2)
    by (simp add: preciseTest_def Let_def d ab spacedWorld_simps gcc_no_connections rn)
qed

lemma tight_testPair:
  "testPair exampleTools (2, 3) (spacedWorld (5000003 / 5000000) (20000013 / 10000000), []) =
     Inr (spacedWorld (5000003 / 5000000) (20000013 / 10000000), [(2, 3)])"
  using spacedWorld_preciseTest[of "20000013 / 10000000" "2000001 / 1000000" "5000003 / 5000000"]
  by (simp add: testPair_def Let_def pair_2_3 spacedWorld_sqDistance roundDecimal_tight_values
      sqMaxLength_def spacedWorld_simps spacedWorld_graph power2_eq_square)

lemma tight_check:
  "\<exists>s fl tors.
     checkForCellCellConnections exampleTools [2, 3]
       (spacedWorld (5000003 / 5000000) (20000013 / 10000000)) =
     Inr (CCCM_createConnection 2 3 s fl tors
            (spacedWorld (5000003 / 5000000) (20000013 / 10000000)))"
proof -
  let ?w = "spacedWorld (5000003 / 5000000) (20000013 / 10000000)"
  have "1 \<le> getVolume (mem ?w 2) + getVolume (mem ?w 3)"
    using pi_ge_two by (simp add: getVolume_def spacedWorld_simps)
  then have "roundN exampleTools (getVolume (mem ?w 2) + getVolume (mem ?w 3)) \<noteq> 0"
    using roundDecimal_ge_one[of _ 6] by (fastforce simp: exampleTools_def)
  from createConnection_total[OF this] obtain s fl tors where
    "createConnection exampleTools 2 3 ?w = Inr (CCCM_createConnection 2 3 s fl tors ?w)"
    by blast
  then have "checkForCellCellConnections exampleTools [2, 3] ?w =
     Inr (CCCM_createConnection 2 3 s fl tors ?w)"
    by (simp add: checkForCellCellConnections_def Let_def exampleTools_grid spacedWorld_simps
        tight_testPair)
  then show ?thesis by blast
qed

text \<open>
  With rounding to six decimals, two unconnected cells of corrected radius 1.0000006 whose
  centres are 2.0000013 apart, more than the sum 2.0000012 of the corrected radii, are
  connected by \<open>checkForCellCellConnections\<close>: the rounded distance is 2.000001.
\<close>

theorem checkForCellCellConnections_connects_beyond_sum:
  "sqlength (vminus (position (cells (spacedWorld (5000003 / 5000000) (20000013 / 10000000)) 2))
                    (position (cells (spacedWorld (5000003 / 5000000) (20000013 / 10000000)) 3)))
     > (correctedRadius (mem (spacedWorld (5000003 / 5000000) (20000013 / 10000000)) 2) +
        correctedRadius (mem (spacedWorld (5000003 / 5000000) (20000013 / 10000000)) 3)) ^ 2 \<and>
   connectedPairs (spacedWorld (5000003 / 5000000) (20000013 / 10000000)) = [] \<and>
   (case checkForCellCellConnections exampleTools [2, 3]
           (spacedWorld (5000003 / 5000000) (20000013 / 10000000)) of
      Inl e \<Rightarrow> False
    | Inr w' \<Rightarrow> connectedPairs w' = [(2, 3)])"
proof -
  let ?w = "spacedWorld (5000003 / 5000000) (20000013 / 10000000)"
  from tight_check obtain s fl tors where
    c: "checkForCellCellConnections exampleTools [2, 3] ?w =
          Inr (CCCM_createConnection 2 3 s fl tors ?w)" by blast
  have "connectedPairs (CCCM_createConnection 2 3 s fl tors ?w) = [(2, 3)]"
    by (simp add: CCCM_createConnection_pairs spacedWorld_graph pair_2_3)
  with c show ?thesis
    by (simp add: spacedWorld_simps spacedWorld_graph sqlength_def power2_eq_square)
qed

theorem checkForCellCellConnections_threshold_witness:
  "checkForCellCellConnections exampleTools [2, 3] (apartWorld (2001 / 1000)) =
     Inr (apartWorld (2001 / 1000)) \<and>
   correctedRadius (mem (apartWorld (2001 / 1000)) 2) = 1 \<and>
   correctedRadius (mem (apartWorld (2001 / 1000)) 3) = 1 \<and>
   roundNv exampleTools (vminus (position (cells (apartWorld (2001 / 1000)) 2))
                                (position (cells (apartWorld (2001 / 1000)) 3)))
     = vminus (position (cells (apartWorld (2001 / 1000)) 2))
              (position (cells (apartWorld (2001 / 1000)) 3)) \<and>
   sqlength (vminus (position (cells (apartWorld (2001 / 1000)) 2))
                    (position (cells (apartWorld (2001 / 1000)) 3))) = (2001 / 1000) ^ 2 \<and>
   make_ordered_cell_pair 2 3 \<notin> set (connectedPairs (apartWorld (2001 / 1000))) \<and>
   sqlength (roundNv exampleTools (vminus (position (cells (apartWorld 2) 2))
                                          (position (cells (apartWorld 2) 3)))) = 2 ^ 2 \<and>
   testPair exampleTools (2, 3) (apartWorld 2, []) = Inr (apartWorld 2, [])"
proof -
  have r: "roundNv exampleTools (vminus (position (cells (apartWorld (2001 / 1000)) 2))
                                (position (cells (apartWorld (2001 / 1000)) 3)))
     = vminus (position (cells (apartWorld (2001 / 1000)) 2))
              (position (cells (apartWorld (2001 / 1000)) 3))"
    by (simp add: apartWorld_simps exampleTools_def roundDecimal_values roundDecimal_more_values)
  have h: "sqlength (vminus (position (cells (apartWorld (2001 / 1000)) 2))
                    (position (cells (apartWorld (2001 / 1000)) 3))) = (2001 / 1000) ^ 2"
    "sqlength (roundNv exampleTools (vminus (position (cells (apartWorld 2) 2))
                                          (position (cells (apartWorld 2) 3)))) = 2 ^ 2"
    by (simp_all add: apartWorld_simps exampleTools_def roundDecimal_values
        roundDecimal_more_values sqlength_def power2_eq_square)
  from checkForCellCellConnections_threshold[of exampleTools "[2, 3]" "apartWorld (2001 / 1000)"
      "apartWorld (2001 / 1000)" "apartWorld 2" 2 3 "[]"]
    r h apartWorld_check_far apartWorld_testPair_touching
  show ?thesis
    by (simp add: apartWorld_simps apartWorld_graph pair_2_3)
qed

section \<open>Updating connections: what is removed\<close>









lemma sameGeometry_refl [simp]: "sameGeometry w w"
  by (simp add: sameGeometry_def)





















section \<open>Rest length\<close>

text \<open>
  C6.  \<open>getConnectionLength l adh\<close> is \<open>l\<close> whenever \<open>adh\<close> does not exceed the adhesion
  threshold, and otherwise the interpolation between the max-adhesion and the min-adhesion
  multiple of \<open>l\<close>.  The constants are not in the sources at hand: with a threshold in
  \<open>[0, 1)\<close>, \<open>getConnectionLength 2 0 = 2\<close> and \<open>getConnectionLength 2 1\<close> is the
  min-adhesion multiple of 2.
\<close>

theorem getConnectionLength_threshold:
  "(adh \<le> ADH_THRESHOLD T \<longrightarrow> getConnectionLength T l adh = l) \<and>
   (adh > ADH_THRESHOLD T \<longrightarrow>
      getConnectionLength T l adh =
        mix (MAX_CELL_ADH_LENGTH T * l) (MIN_CELL_ADH_LENGTH T * l) adh \<and>
      getConnectionLength T l adh =
        MAX_CELL_ADH_LENGTH T * l * (1 - adh) + MIN_CELL_ADH_LENGTH T * l * adh) \<and>
   (0 \<le> ADH_THRESHOLD T \<longrightarrow> getConnectionLength T 2 0 = 2) \<and>
   (ADH_THRESHOLD T < 1 \<longrightarrow> getConnectionLength T 2 1 = MIN_CELL_ADH_LENGTH T * 2)"
  by (simp add: getConnectionLength_def mix_def)

theorem getConnectionLength_threshold_witness:
  "(0 :: real) \<le> ADH_THRESHOLD exampleTools \<and> ADH_THRESHOLD exampleTools < 1 \<and>
   (5 / 100 :: real) \<le> ADH_THRESHOLD exampleTools \<and>
   (1 / 2 :: real) > ADH_THRESHOLD exampleTools \<and>
   getConnectionLength exampleTools 2 (5 / 100) = 2 \<and>
   getConnectionLength exampleTools 2 (1 / 2) = 14 / 10 \<and>
   getConnectionLength exampleTools 2 0 = 2 \<and>
   getConnectionLength exampleTools 2 1 = 12 / 10"
  using getConnectionLength_threshold [of "5 / 100" exampleTools 2]
    getConnectionLength_threshold [of "1 / 2" exampleTools 2]
  by (simp add: exampleTools_def)

end
